theory Spec2Isabelle
  imports Complex_Main
begin

section \<open>JavaScript values\<close>

text \<open>
  The two build scripts (\<^verbatim>\<open>build-skills.mjs\<close>, \<^verbatim>\<open>build-definitions.mjs\<close>) are
  embedded function by function. A JavaScript string is a sequence of UTF-16 code units;
  \<open>length\<close>, \<open>slice\<close>, \<open>startsWith\<close>, \<open>endsWith\<close> and \<open>includes\<close> count and compare
  code units, so a string is modelled as the list of its code units. Program literals are
  ASCII and written \<open>js ''...''\<close>.
\<close>

type_synonym jsstring = "nat list"

definition js :: "string \<Rightarrow> jsstring" where
  "js s = map of_char s"

text \<open>
  A number is a finite value or one of the three non-finite doubles. Finite values are kept
  as rationals: the scripts only test \<open>Number.isFinite\<close>, compare with \<open>0\<close> and a string
  length, add array lengths and subtract \<open>1\<close> from a character budget, which is exact on
  doubles for the integers below \<open>2^53\<close> that occur.
\<close>

datatype jsnum = Finite rat | NaN | PosInfinity | NegInfinity

text \<open>
  Values as \<open>JSON.stringify\<close> and the TOML and front-matter parsers see them. An object is
  the list of its own properties in insertion order; property keys are program identifiers.
\<close>

datatype jsval =
    Undefined
  | Null
  | Bool bool
  | Num jsnum
  | Str jsstring
  | Arr "jsval list"
  | Obj "(string \<times> jsval) list"

section \<open>The disk, the host and the effects\<close>

text \<open>
  What the scripts read from disk: a regular file with its text, a directory with its
  entries in the order \<open>readdir\<close> returns them, or any other entry (socket, FIFO, ...),
  which exists but is neither a file nor a directory. The model covers readable
  directories on a POSIX host (\<open>path.sep\<close> is \<open>'/'\<close>); symbolic links and I/O failures
  other than a failing archive write are not part of it.
\<close>

datatype node = File jsstring | Dir "(jsstring \<times> node) list" | Other

text \<open>
  What the scripts take from the platform and from their libraries, as parameters of the
  model: the Unicode case table, the ICU collation of
  \<open>localeCompare(_, undefined, {sensitivity: 'base'})\<close>, the front-matter parser
  (\<open>matter(raw).data\<close>, \<open>None\<close> when it throws), the TOML parser (\<open>None\<close> when it
  throws), the archiver (the finished archive's size for a folder name, a source tree and a
  destination, \<open>None\<close> when the write fails), the working directory and the directory
  the scripts' \<open>websiteDir\<close> resolves to.
\<close>

record host =
  toLowerCase :: "jsstring \<Rightarrow> jsstring"
  localeCompare :: "jsstring \<Rightarrow> jsstring \<Rightarrow> int"
  matter :: "jsstring \<Rightarrow> jsval option"
  parseToml :: "jsstring \<Rightarrow> jsval option"
  archive :: "jsstring \<Rightarrow> node \<Rightarrow> jsstring \<Rightarrow> nat option"
  cwd :: jsstring
  websiteDir :: jsstring

text \<open>
  The effects a run leaves behind, in order. A console warning is recorded by its kind and
  arguments, not by its text; informational \<open>console.log\<close> lines and the warnings of the
  definitions script's normalisers are not recorded. \<open>CreateZip out folder\<close> is the call
  of \<open>createSkillZip\<close>, which opens (and truncates) the file \<open>out\<close> whether or not the
  archive is completed.
\<close>

datatype warning =
    MissingDescription jsstring jsstring
  | FrontmatterFailed jsstring jsstring
  | DuplicateFolder jsstring jsstring
  | OutsideDownloads jsstring jsstring jsstring
  | PackagingFailed jsstring jsstring

datatype target = PublicManifest | InternalCatalog | Schema

datatype effect =
    EnsureDirs
  | Warn warning
  | ErrorLog
  | CreateZip jsstring jsstring
  | WriteJson target jsval

text \<open>The folder names handed to \<open>createSkillZip\<close>, in the order of the calls.\<close>

definition archivedFolders :: "effect list \<Rightarrow> jsstring list" where
  "archivedFolders es =
     concat (map (\<lambda>e. case e of CreateZip out folder \<Rightarrow> [folder] | _ \<Rightarrow> []) es)"

text \<open>The mutable variables of the skills script's \<open>main\<close> that outlive one skill.\<close>

record skills_state =
  seenSkillFolderNames :: "jsstring set"
  packagedCount :: nat
  errorCount :: nat
  totalZipBytes :: nat
  effects :: "effect list"

text \<open>How \<open>main\<close> ended: whether it threw, and what it did before.\<close>

record run_result =
  threw :: bool
  trace :: "effect list"

section \<open>Reading values\<close>

definition num :: "nat \<Rightarrow> jsval" where
  "num n = Num (Finite (of_nat n))"

definition props :: "jsval \<Rightarrow> (string \<times> jsval) list" where
  "props v = (case v of Obj ps \<Rightarrow> ps | _ \<Rightarrow> [])"

text \<open>Property read \<open>v.k\<close> (and \<open>v?.k\<close>): \<open>undefined\<close> when the key is absent.\<close>

definition get :: "jsval \<Rightarrow> string \<Rightarrow> jsval" where
  "get v k = (case map_of (props v) k of Some x \<Rightarrow> x | None \<Rightarrow> Undefined)"

definition elems :: "jsval \<Rightarrow> jsval list" where
  "elems v = (case v of Arr xs \<Rightarrow> xs | _ \<Rightarrow> [])"

definition strOf :: "jsval \<Rightarrow> jsstring" where
  "strOf v = (case v of Str s \<Rightarrow> s | _ \<Rightarrow> [])"

text \<open>JavaScript truthiness, as used by \<open>c ? a : b\<close>, \<open>a || b\<close> and \<open>!a\<close>.\<close>

definition truthy :: "jsval \<Rightarrow> bool" where
  "truthy v = (case v of
      Undefined \<Rightarrow> False
    | Null \<Rightarrow> False
    | Bool b \<Rightarrow> b
    | Num n \<Rightarrow> (case n of Finite r \<Rightarrow> r \<noteq> 0 | NaN \<Rightarrow> False | _ \<Rightarrow> True)
    | Str s \<Rightarrow> s \<noteq> []
    | Arr _ \<Rightarrow> True
    | Obj _ \<Rightarrow> True)"

text \<open>
  The keys \<open>JSON.stringify\<close> emits for an object: a property whose value is \<open>undefined\<close>
  is left out of the text.
\<close>

definition jsonKeys :: "jsval \<Rightarrow> string list" where
  "jsonKeys v = map fst (filter (\<lambda>(k, x). x \<noteq> Undefined) (props v))"

section \<open>String helpers of the language\<close>

fun startsWith :: "jsstring \<Rightarrow> jsstring \<Rightarrow> bool" where
  "startsWith s [] = True"
| "startsWith [] (p # ps) = False"
| "startsWith (c # cs) (p # ps) = (c = p \<and> startsWith cs ps)"

definition endsWith :: "jsstring \<Rightarrow> jsstring \<Rightarrow> bool" where
  "endsWith s p = startsWith (rev s) (rev p)"

fun includesStr :: "jsstring \<Rightarrow> jsstring \<Rightarrow> bool" where
  "includesStr [] p = (p = [])"
| "includesStr (c # cs) p = (startsWith (c # cs) p \<or> includesStr cs p)"

text \<open>\<open>s.split('/')\<close>: the pieces between separators, empty pieces included.\<close>

fun splitSlash :: "jsstring \<Rightarrow> jsstring list" where
  "splitSlash [] = [[]]"
| "splitSlash (c # cs) =
     (if c = 47 then [] # splitSlash cs
      else (case splitSlash cs of [] \<Rightarrow> [[c]] | p # ps \<Rightarrow> (c # p) # ps))"

fun joinSlash :: "jsstring list \<Rightarrow> jsstring" where
  "joinSlash [] = []"
| "joinSlash [p] = p"
| "joinSlash (p # q # ps) = p @ [47] @ joinSlash (q # ps)"

text \<open>White space and line terminators removed by \<open>String.prototype.trim\<close>.\<close>

definition isWhiteSpace :: "nat \<Rightarrow> bool" where
  "isWhiteSpace c \<longleftrightarrow>
     c \<in> {9, 10, 11, 12, 13, 32, 160, 5760, 8232, 8233, 8239, 8287, 12288, 65279}
     \<or> (8192 \<le> c \<and> c \<le> 8202)"

definition trim :: "jsstring \<Rightarrow> jsstring" where
  "trim s = rev (dropWhile isWhiteSpace (rev (dropWhile isWhiteSpace s)))"

text \<open>
  \<open>ToIntegerOrInfinity\<close> on a finite number truncates towards zero;
  \<open>s.slice(0, e)\<close> counts a negative end from the end of the string.
\<close>

definition toInteger :: "rat \<Rightarrow> int" where
  "toInteger r = (if r < 0 then - \<lfloor>- r\<rfloor> else \<lfloor>r\<rfloor>)"

definition slice0 :: "jsstring \<Rightarrow> rat \<Rightarrow> jsstring" where
  "slice0 s e =
     (let k = toInteger e
      in if k < 0 then take (nat (int (length s) + k)) s else take (nat k) s)"

section \<open>truncate\<close>

definition ellipsis :: jsstring where
  "ellipsis = [8230]"

definition PUBLIC_DESC_MAX_CHARS :: jsval where
  "PUBLIC_DESC_MAX_CHARS = Num (Finite 500)"

text \<open>
  \<^verbatim>\<open>
  function truncate(str, maxChars) {
    if (typeof str !== 'string') return '';
    if (!Number.isFinite(maxChars) || maxChars <= 0) return '';
    if (str.length <= maxChars) return str;
    if (maxChars === 1) return '...';      // one U+2026
    return `${str.slice(0, maxChars - 1)}...`;
  }
  \<close>
  The same text stands in both scripts. \<open>maxChars - 1\<close> is subtracted exactly, as it is on
  doubles for every integer budget; the scripts pass the constant \<open>500\<close>.
\<close>

definition truncate :: "jsval \<Rightarrow> jsval \<Rightarrow> jsstring" where
  "truncate str maxChars =
     (case str of
        Str s \<Rightarrow>
          (case maxChars of
             Num (Finite m) \<Rightarrow>
               if m \<le> 0 then []
               else if of_nat (length s) \<le> m then s
               else if m = 1 then ellipsis
               else slice0 s (m - 1) @ ellipsis
           | _ \<Rightarrow> [])
      | _ \<Rightarrow> [])"

section \<open>The exclusion filter\<close>

text \<open>
  \<open>path.posix.basename\<close>: trailing slashes are skipped, then the characters back to the
  previous slash are returned.
\<close>

definition basename :: "jsstring \<Rightarrow> jsstring" where
  "basename p = rev (takeWhile (\<lambda>c. c \<noteq> 47) (dropWhile (\<lambda>c. c = 47) (rev p)))"

definition excludedDirNames :: "jsstring list" where
  "excludedDirNames =
     [js ''__pycache__'', js ''.ssh'', js ''node_modules'', js ''.venv'', js ''venv'',
      js ''env'', js ''dist'', js ''.idea'', js ''.vscode'', js ''.terraform'']"

text \<open>
  \<open>shouldExcludePath(relPathLike, { isDirectory })\<close>, the same text in both scripts. The
  rules are kept in the order of the source.
\<close>

definition shouldExcludePath :: "host \<Rightarrow> jsstring \<Rightarrow> bool \<Rightarrow> bool" where
  "shouldExcludePath h relPathLike isDirectory =
     (let rel = joinSlash (splitSlash relPathLike);
          base = basename rel;
          baseLower = toLowerCase h base
      in if base = js ''.DS_Store'' then True
         else if endsWith baseLower (js ''.pyc'') then True
         else if base = js ''.git'' \<or> base = js ''.svn'' \<or> base = js ''.hg'' then True
         else if includesStr rel (js ''/.git/'') \<or> includesStr rel (js ''/.svn/'')
                 \<or> includesStr rel (js ''/.hg/'') then True
         else if base = js ''.env'' \<or> startsWith base (js ''.env.'') then True
         else if base = js ''.npmrc'' then True
         else if base = js ''.yarnrc'' \<or> base = js ''.yarnrc.yml'' then True
         else if base = js ''.pypirc'' then True
         else if baseLower = js ''id_rsa'' \<or> baseLower = js ''id_ed25519'' then True
         else if endsWith baseLower (js ''.pem'') then True
         else if endsWith baseLower (js ''.key'') then True
         else if endsWith baseLower (js ''.p12'') then True
         else if endsWith baseLower (js ''.pfx'') then True
         else if endsWith baseLower (js ''.swp'') \<or> endsWith baseLower (js ''.swo'') then True
         else
           (let segments = filter (\<lambda>seg. seg \<noteq> []) (splitSlash rel)
            in if \<exists>seg \<in> set segments. seg \<in> set excludedDirNames then True
               else if isDirectory \<and> startsWith base (js ''.'') then True
               else False))"

section \<open>Group slugs\<close>

definition isLowerOrDigit :: "nat \<Rightarrow> bool" where
  "isLowerOrDigit c \<longleftrightarrow> (97 \<le> c \<and> c \<le> 122) \<or> (48 \<le> c \<and> c \<le> 57)"

definition isUpper :: "nat \<Rightarrow> bool" where
  "isUpper c \<longleftrightarrow> 65 \<le> c \<and> c \<le> 90"

text \<open>
  \<open>s.replace(/([a-z0-9])([A-Z])/g, '$1-$2')\<close>: matches are found left to right and do not
  overlap; the scan resumes after the upper-case letter of a match.
\<close>

fun camelDashes :: "jsstring \<Rightarrow> jsstring" where
  "camelDashes (a # b # cs) =
     (if isLowerOrDigit a \<and> isUpper b then a # 45 # b # camelDashes cs
      else a # camelDashes (b # cs))"
| "camelDashes cs = cs"

text \<open>\<open>s.replace(/[^a-z0-9]+/g, '-')\<close>: every maximal run of other code units becomes one dash.\<close>

function collapseNonAlnum :: "jsstring \<Rightarrow> jsstring" where
  "collapseNonAlnum [] = []"
| "collapseNonAlnum (c # cs) =
     (if isLowerOrDigit c then c # collapseNonAlnum cs
      else 45 # collapseNonAlnum (dropWhile (\<lambda>d. \<not> isLowerOrDigit d) cs))"
  by pat_completeness auto
termination
  by (relation "measure length") (auto simp: length_dropWhile_le less_Suc_eq_le)

text \<open>\<open>s.replace(/^-+|-+$/g, '')\<close>: the leading and the trailing run of dashes are removed.\<close>

definition stripDashes :: "jsstring \<Rightarrow> jsstring" where
  "stripDashes s = rev (dropWhile (\<lambda>c. c = 45) (rev (dropWhile (\<lambda>c. c = 45) s)))"

definition slugifyGroupName :: "host \<Rightarrow> jsstring \<Rightarrow> jsstring" where
  "slugifyGroupName h groupName =
     (let withDashes = camelDashes groupName
      in stripDashes (collapseNonAlnum (toLowerCase h (trim withDashes))))"

section \<open>Paths\<close>

text \<open>
  \<open>node:path\<close> on a POSIX host, read segment by segment. \<open>normalizeString\<close> drops empty
  and \<open>.\<close> segments; a \<open>..\<close> segment removes the segment before it, and at the root it is
  dropped (kept, for a relative path).
\<close>

fun normalizeSegs :: "bool \<Rightarrow> jsstring list \<Rightarrow> jsstring list \<Rightarrow> jsstring list" where
  "normalizeSegs allowAboveRoot res [] = res"
| "normalizeSegs allowAboveRoot res (seg # segs) =
     (if seg = [] \<or> seg = js ''.'' then normalizeSegs allowAboveRoot res segs
      else if seg = js ''..'' then
        (if res \<noteq> [] \<and> last res \<noteq> js ''..'' then normalizeSegs allowAboveRoot (butlast res) segs
         else if allowAboveRoot then normalizeSegs allowAboveRoot (res @ [js ''..'']) segs
         else normalizeSegs allowAboveRoot res segs)
      else normalizeSegs allowAboveRoot (res @ [seg]) segs)"

definition isAbsolute :: "jsstring \<Rightarrow> bool" where
  "isAbsolute p = (case p of [] \<Rightarrow> False | c # _ \<Rightarrow> c = 47)"

text \<open>
  \<open>path.resolve(...args)\<close>: the arguments are prepended from the right until one is
  absolute; empty arguments are skipped; the working directory is used last.
\<close>

fun resolveLoop :: "jsstring list \<Rightarrow> jsstring \<Rightarrow> jsstring \<times> bool" where
  "resolveLoop [] resolvedPath = (resolvedPath, False)"
| "resolveLoop (p # ps) resolvedPath =
     (if p = [] then resolveLoop ps resolvedPath
      else if isAbsolute p then (p @ [47] @ resolvedPath, True)
      else resolveLoop ps (p @ [47] @ resolvedPath))"

definition resolve :: "host \<Rightarrow> jsstring list \<Rightarrow> jsstring" where
  "resolve h args =
     (let (resolvedPath, resolvedAbsolute) = resolveLoop (rev (cwd h # args)) [];
          normalized = joinSlash (normalizeSegs (\<not> resolvedAbsolute) [] (splitSlash resolvedPath))
      in if resolvedAbsolute then 47 # normalized
         else if normalized \<noteq> [] then normalized else js ''.'')"

text \<open>
  \<open>path.relative(from, to)\<close>: both paths are resolved, their common leading segments
  are dropped, and the result climbs one \<open>..\<close> for each remaining segment of \<open>from\<close>
  before descending into the remaining segments of \<open>to\<close>.
\<close>

fun dropCommon :: "jsstring list \<Rightarrow> jsstring list \<Rightarrow> jsstring list \<times> jsstring list" where
  "dropCommon (a # as) (b # bs) = (if a = b then dropCommon as bs else (a # as, b # bs))"
| "dropCommon as bs = (as, bs)"

definition segmentsOf :: "jsstring \<Rightarrow> jsstring list" where
  "segmentsOf p = filter (\<lambda>seg. seg \<noteq> []) (splitSlash p)"

definition relative :: "host \<Rightarrow> jsstring \<Rightarrow> jsstring \<Rightarrow> jsstring" where
  "relative h from to =
     (if from = to then []
      else
        (let from' = resolve h [from]; to' = resolve h [to]
         in if from' = to' then []
            else
              (let (fromRest, toRest) = dropCommon (segmentsOf from') (segmentsOf to')
               in joinSlash (map (\<lambda>_. js ''..'') fromRest @ toRest))))"

text \<open>The output directory of the archives, as the skills script computes it.\<close>

definition publicDir :: "host \<Rightarrow> jsstring" where
  "publicDir h = resolve h [websiteDir h, js ''public'']"

definition downloadsDir :: "host \<Rightarrow> jsstring" where
  "downloadsDir h = resolve h [publicDir h, js ''skills'', js ''downloads'']"

definition astroDataDir :: "host \<Rightarrow> jsstring" where
  "astroDataDir h = resolve h [websiteDir h, js ''src'', js ''data'']"

text \<open>
  The boundary test that both scripts apply to an output path: the path relative to
  the base directory is absolute, is \<open>..\<close>, or starts with \<open>../\<close>.
\<close>

definition escapes :: "host \<Rightarrow> jsstring \<Rightarrow> jsstring \<Rightarrow> bool" where
  "escapes h baseDirAbs targetAbs =
     (let rel = relative h baseDirAbs targetAbs;
          relPosix = joinSlash (splitSlash rel)
      in isAbsolute rel \<or> relPosix = js ''..'' \<or> startsWith relPosix (js ''../''))"

section \<open>Reading the disk\<close>

definition child :: "node option \<Rightarrow> jsstring \<Rightarrow> node option" where
  "child d name = (case d of Some (Dir es) \<Rightarrow> map_of es name | _ \<Rightarrow> None)"

definition pathExists :: "node option \<Rightarrow> bool" where
  "pathExists p = (p \<noteq> None)"

definition isDirectory :: "node option \<Rightarrow> bool" where
  "isDirectory p = (case p of Some (Dir _) \<Rightarrow> True | _ \<Rightarrow> False)"

definition direntIsDirectory :: "node \<Rightarrow> bool" where
  "direntIsDirectory n = (case n of Dir _ \<Rightarrow> True | _ \<Rightarrow> False)"

definition readdir :: "node \<Rightarrow> (jsstring \<times> node) list" where
  "readdir n = (case n of Dir es \<Rightarrow> es | _ \<Rightarrow> [])"

text \<open>
  \<open>Array.prototype.sort\<close> with a comparator is stable. For a consistent comparator, as a
  collation is, its result is the one a stable insertion sort gives.
\<close>

fun insortBy :: "('a \<Rightarrow> 'a \<Rightarrow> int) \<Rightarrow> 'a \<Rightarrow> 'a list \<Rightarrow> 'a list" where
  "insortBy cmp x [] = [x]"
| "insortBy cmp x (y # ys) = (if cmp x y \<le> 0 then x # y # ys else y # insortBy cmp x ys)"

definition sortBy :: "('a \<Rightarrow> 'a \<Rightarrow> int) \<Rightarrow> 'a list \<Rightarrow> 'a list" where
  "sortBy cmp xs = foldr (insortBy cmp) xs []"

definition sortAlphaCaseInsensitive :: "host \<Rightarrow> jsstring list \<Rightarrow> jsstring list" where
  "sortAlphaCaseInsensitive h values = sortBy (localeCompare h) values"

text \<open>\<open>xs.sort((a, b) => a.name.localeCompare(b.name, undefined, { sensitivity: 'base' }))\<close>\<close>

definition sortByName :: "host \<Rightarrow> jsval list \<Rightarrow> jsval list" where
  "sortByName h xs =
     sortBy (\<lambda>a b. localeCompare h (strOf (get a ''name'')) (strOf (get b ''name''))) xs"

section \<open>The skills script\<close>

definition VERSION :: jsstring where
  "VERSION = js ''1.0.0''"

definition BASE_URL :: jsstring where
  "BASE_URL = js ''https://www.llmspec.dev''"

text \<open>\<open>listGroups\<close>: the names of the directories under the skills root, sorted.\<close>

definition listGroups :: "host \<Rightarrow> node \<Rightarrow> jsstring list" where
  "listGroups h skillsRoot =
     sortAlphaCaseInsensitive h (map fst (filter (\<lambda>e. direntIsDirectory (snd e)) (readdir skillsRoot)))"

text \<open>
  \<open>listSkillDirs\<close>: the directories of a group that hold an entry \<open>SKILL.md\<close>, sorted by
  their folder names.
\<close>

definition listSkillDirs :: "host \<Rightarrow> node option \<Rightarrow> (jsstring \<times> node) list" where
  "listSkillDirs h groupDir =
     (let entries = (case groupDir of Some d \<Rightarrow> readdir d | None \<Rightarrow> []);
          candidates = filter (\<lambda>e. direntIsDirectory (snd e)) entries;
          skills = filter (\<lambda>c. pathExists (child (Some (snd c)) (js ''SKILL.md''))) candidates
      in sortBy (\<lambda>a b. localeCompare h (fst a) (fst b)) skills)"

text \<open>
  \<open>parseSkillFrontmatter\<close>: name, description and the warnings printed. Reading fails
  when \<open>SKILL.md\<close> is not a regular file; parsing fails when the parser throws. The
  warnings carry the group and the folder in place of the absolute path of the file.
\<close>

definition parseSkillFrontmatter ::
  "host \<Rightarrow> jsstring \<Rightarrow> node option \<Rightarrow> jsstring \<Rightarrow> jsstring \<times> jsstring \<times> warning list" where
  "parseSkillFrontmatter h groupName skillMd fallbackName =
     (case (case skillMd of Some (File raw) \<Rightarrow> matter h raw | _ \<Rightarrow> None) of
        Some data \<Rightarrow>
          (let name = (case get data ''name'' of
                         Str s \<Rightarrow> if trim s \<noteq> [] then trim s else fallbackName
                       | _ \<Rightarrow> fallbackName);
               description = (case get data ''description'' of Str s \<Rightarrow> trim s | _ \<Rightarrow> [])
           in (name, description,
               if description = [] then [MissingDescription groupName fallbackName] else []))
      | None \<Rightarrow> (fallbackName, [], [FrontmatterFailed groupName fallbackName]))"

text \<open>
  \<open>countIncludedFiles\<close>: a depth-first walk that skips what the exclusion filter
  excludes, descends into directories and counts regular files.
\<close>

function walkCount :: "host \<Rightarrow> jsstring \<Rightarrow> (jsstring \<times> node) list \<Rightarrow> nat" where
  "walkCount h relFromRoot [] = 0"
| "walkCount h relFromRoot ((name, ent) # entries) =
     (let childRel = (if relFromRoot \<noteq> [] then relFromRoot @ [47] @ name else name)
      in (if shouldExcludePath h childRel (direntIsDirectory ent) then 0
          else (case ent of
                  Dir ds \<Rightarrow> walkCount h childRel ds
                | File _ \<Rightarrow> 1
                | Other \<Rightarrow> 0))
         + walkCount h relFromRoot entries)"
  by pat_completeness auto
termination
  by (relation "measure (\<lambda>(h, rel, es). size_list (size_prod (\<lambda>_. 0) size) es)") auto

definition countIncludedFiles :: "host \<Rightarrow> node \<Rightarrow> nat" where
  "countIncludedFiles h rootDir = walkCount h [] (readdir rootDir)"

text \<open>\<open>detectSkillContents\<close>\<close>

definition detectSkillContents :: "node \<Rightarrow> jsval" where
  "detectSkillContents skillDir =
     (let hasLicense =
            (pathExists (child (Some skillDir) (js ''LICENSE.txt''))
             \<or> pathExists (child (Some skillDir) (js ''LICENSE.md''))
             \<or> pathExists (child (Some skillDir) (js ''LICENSE'')))
      in Obj [(''has_scripts'', Bool (isDirectory (child (Some skillDir) (js ''scripts'')))),
              (''has_references'', Bool (isDirectory (child (Some skillDir) (js ''references'')))),
              (''has_license'', Bool hasLicense)])"

text \<open>The two records \<open>main\<close> builds for a packaged skill.\<close>

definition downloadUrl :: "jsstring \<Rightarrow> jsstring" where
  "downloadUrl skillFolderName = js ''/skills/downloads/'' @ skillFolderName @ js ''.zip''"

definition skillPublic ::
  "jsstring \<Rightarrow> jsstring \<Rightarrow> jsstring \<Rightarrow> jsstring \<Rightarrow> nat \<Rightarrow> nat \<Rightarrow> jsval \<Rightarrow> jsval" where
  "skillPublic skillName fullDescription groupSlug skillFolderName zipSizeBytes fileCount contents =
     Obj [(''name'', Str skillName),
          (''description'', Str (truncate (Str fullDescription) PUBLIC_DESC_MAX_CHARS)),
          (''group'', Str groupSlug),
          (''download_url'', Str (downloadUrl skillFolderName)),
          (''zip_size_bytes'', num zipSizeBytes),
          (''file_count'', num fileCount),
          (''contents'', contents)]"

definition skillInternal ::
  "jsstring \<Rightarrow> jsstring \<Rightarrow> jsstring \<Rightarrow> jsstring \<Rightarrow> nat \<Rightarrow> nat \<Rightarrow> jsval \<Rightarrow> jsval" where
  "skillInternal skillName fullDescription groupSlug skillFolderName zipSizeBytes fileCount contents =
     Obj [(''name'', Str skillName),
          (''description'', Str fullDescription),
          (''group'', Str groupSlug),
          (''download_url'', Str (downloadUrl skillFolderName)),
          (''zip_size_bytes'', num zipSizeBytes),
          (''file_count'', num fileCount),
          (''contents'', contents)]"

text \<open>
  The body of the loop over the skills of a group. The state carries the variables of
  \<open>main\<close>; the two lists are \<open>groupOutPublic.skills\<close> and \<open>groupOutInternal.skills\<close>.
  \<^verbatim>\<open>
  if (seenSkillFolderNames.has(skillFolderName)) { warn; errorCount += 1; continue; }
  seenSkillFolderNames.add(skillFolderName);
  const zipOutAbs = path.resolve(downloadsDir, `${skillFolderName}.zip`);
  const relToDownloads = path.relative(downloadsDir, zipOutAbs);
  const relToDownloadsPosix = relToDownloads.split(path.sep).join('/');
  if (path.isAbsolute(relToDownloads) || relToDownloadsPosix === '..' ||
      relToDownloadsPosix.startsWith('../')) { warn; errorCount += 1; continue; }
  try { fileCount = ...; await createSkillZip(...); zipSizeBytes = stat.size;
        totalZipBytes += zipSizeBytes; packagedCount += 1; }
  catch (err) { errorCount += 1; warn; zipSizeBytes = 0; }
  \<close>
\<close>

definition processSkill ::
  "host \<Rightarrow> jsstring \<Rightarrow> jsstring \<Rightarrow> skills_state \<times> jsval list \<times> jsval list
     \<Rightarrow> jsstring \<times> node \<Rightarrow> skills_state \<times> jsval list \<times> jsval list" where
  "processSkill h groupName groupSlug acc s =
     (case acc of (st, skillsPublic, skillsInternal) \<Rightarrow>
      (let skillFolderName = fst s;
           skillDir = snd s;
           (skillName, fullDescription, warnings) =
             parseSkillFrontmatter h groupName (child (Some skillDir) (js ''SKILL.md'')) skillFolderName;
           st1 = st\<lparr>effects := effects st @ map Warn warnings\<rparr>
       in if skillFolderName \<in> seenSkillFolderNames st1
          then (st1\<lparr>effects := effects st1 @ [Warn (DuplicateFolder groupName skillFolderName)],
                    errorCount := errorCount st1 + 1\<rparr>,
                skillsPublic, skillsInternal)
          else
            (let st2 = st1\<lparr>seenSkillFolderNames := insert skillFolderName (seenSkillFolderNames st1)\<rparr>;
                 zipOutAbs = resolve h [downloadsDir h, skillFolderName @ js ''.zip'']
             in if escapes h (downloadsDir h) zipOutAbs
                then (st2\<lparr>effects := effects st2
                                 @ [Warn (OutsideDownloads groupName skillFolderName zipOutAbs)],
                          errorCount := errorCount st2 + 1\<rparr>,
                      skillsPublic, skillsInternal)
                else
                  (let fileCount = countIncludedFiles h skillDir;
                       st3 = st2\<lparr>effects := effects st2 @ [CreateZip zipOutAbs skillFolderName]\<rparr>;
                       (zipSizeBytes, st4) =
                         (case archive h skillFolderName skillDir zipOutAbs of
                            Some bytes \<Rightarrow>
                              (bytes, st3\<lparr>totalZipBytes := totalZipBytes st3 + bytes,
                                         packagedCount := packagedCount st3 + 1\<rparr>)
                          | None \<Rightarrow>
                              (0, st3\<lparr>errorCount := errorCount st3 + 1,
                                      effects := effects st3
                                        @ [Warn (PackagingFailed skillName zipOutAbs)]\<rparr>));
                       contents = detectSkillContents skillDir
                   in (st4,
                       skillsPublic @ [skillPublic skillName fullDescription groupSlug
                                         skillFolderName zipSizeBytes fileCount contents],
                       skillsInternal @ [skillInternal skillName fullDescription groupSlug
                                           skillFolderName zipSizeBytes fileCount contents])))))"

text \<open>
  The body of the loop over the groups: the skills of the group are processed in order,
  both lists are sorted by the visible name, and \<open>skill_count\<close> is set from the length
  of the sorted list. The two lists are \<open>manifestPublic.groups\<close> and
  \<open>manifestInternal.groups\<close>.
\<close>

definition groupOut :: "jsstring \<Rightarrow> jsstring \<Rightarrow> jsval list \<Rightarrow> jsval" where
  "groupOut groupName groupSlug skills =
     Obj [(''name'', Str groupName),
          (''slug'', Str groupSlug),
          (''skill_count'', num (length skills)),
          (''skills'', Arr skills)]"

definition processGroup ::
  "host \<Rightarrow> node \<Rightarrow> skills_state \<times> jsval list \<times> jsval list \<Rightarrow> jsstring
     \<Rightarrow> skills_state \<times> jsval list \<times> jsval list" where
  "processGroup h skillsRoot acc groupName =
     (case acc of (st, groupsPublic, groupsInternal) \<Rightarrow>
      (let groupSlug = slugifyGroupName h groupName;
           skillDirs = listSkillDirs h (child (Some skillsRoot) groupName);
           (st', skillsPublic, skillsInternal) =
             foldl (processSkill h groupName groupSlug) (st, [], []) skillDirs
       in (st',
           groupsPublic @ [groupOut groupName groupSlug (sortByName h skillsPublic)],
           groupsInternal @ [groupOut groupName groupSlug (sortByName h skillsInternal)])))"

text \<open>\<open>groups.reduce((acc, g) => acc + g.skill_count, 0)\<close> and its like, on counts.\<close>

definition numberOf :: "jsval \<Rightarrow> rat" where
  "numberOf v = (case v of Num (Finite r) \<Rightarrow> r | _ \<Rightarrow> 0)"

definition sumField :: "string \<Rightarrow> jsval list \<Rightarrow> jsval" where
  "sumField k gs = Num (Finite (foldl (\<lambda>acc g. acc + numberOf (get g k)) 0 gs))"

definition skillsManifest :: "jsstring \<Rightarrow> jsval list \<Rightarrow> jsval" where
  "skillsManifest generatedAt groups =
     Obj [(''version'', Str VERSION),
          (''generated_at'', Str generatedAt),
          (''base_url'', Str BASE_URL),
          (''total_skills'', sumField ''skill_count'' groups),
          (''groups'', Arr groups)]"

definition initialState :: skills_state where
  "initialState =
     \<lparr> seenSkillFolderNames = {}, packagedCount = 0, errorCount = 0, totalZipBytes = 0,
       effects = [EnsureDirs] \<rparr>"

text \<open>
  The loop of \<open>main\<close> over the groups, from the initial values of its variables: the final
  state and the groups of the public and of the internal manifest.
\<close>

definition buildSkills :: "host \<Rightarrow> node \<Rightarrow> skills_state \<times> jsval list \<times> jsval list" where
  "buildSkills h skillsRoot =
     foldl (processGroup h skillsRoot) (initialState, [], []) (listGroups h skillsRoot)"

definition skillsPublicManifest :: "host \<Rightarrow> node \<Rightarrow> jsstring \<Rightarrow> jsval" where
  "skillsPublicManifest h skillsRoot generatedAt =
     skillsManifest generatedAt (fst (snd (buildSkills h skillsRoot)))"

definition skillsInternalManifest :: "host \<Rightarrow> node \<Rightarrow> jsstring \<Rightarrow> jsval" where
  "skillsInternalManifest h skillsRoot generatedAt =
     skillsManifest generatedAt (snd (snd (buildSkills h skillsRoot)))"

text \<open>
  \<open>main\<close> of the skills script: the output directories are made, a missing skills root
  throws, and otherwise the two manifests and the schema are written. The schema is a
  constant of the script and is recorded without its text.
\<close>

definition skillsMain :: "host \<Rightarrow> node option \<Rightarrow> jsstring \<Rightarrow> run_result" where
  "skillsMain h skillsRootDir generatedAt =
     (case skillsRootDir of
        Some (Dir es) \<Rightarrow>
          \<lparr> threw = False,
            trace = effects (fst (buildSkills h (Dir es)))
              @ [WriteJson PublicManifest (skillsPublicManifest h (Dir es) generatedAt),
                 WriteJson InternalCatalog (skillsInternalManifest h (Dir es) generatedAt),
                 WriteJson Schema Undefined] \<rparr>
      | _ \<Rightarrow> \<lparr> threw = True, trace = [EnsureDirs] \<rparr>)"

text \<open>
  The top level of either script: \<open>try { await main(); } catch (err) { ...;
  process.exitCode = 1; }\<close>. The exit status of the process is \<open>0\<close> when nothing set it.
\<close>

definition exitStatus :: "run_result \<Rightarrow> nat" where
  "exitStatus r = (if threw r then 1 else 0)"

section \<open>The definitions script\<close>

definition ALLOWED_STATUSES :: "jsstring list" where
  "ALLOWED_STATUSES = [js ''alpha'', js ''beta'', js ''deprecated'']"

definition isPlainObject :: "jsval \<Rightarrow> bool" where
  "isPlainObject val = (case val of Obj _ \<Rightarrow> True | _ \<Rightarrow> False)"

definition asString :: "jsval \<Rightarrow> jsval" where
  "asString val = (case val of Str s \<Rightarrow> Str s | _ \<Rightarrow> Undefined)"

definition asStringArray :: "jsval \<Rightarrow> jsval" where
  "asStringArray val =
     (case val of
        Arr vs \<Rightarrow> Arr (filter (\<lambda>v. case v of Str _ \<Rightarrow> True | _ \<Rightarrow> False) vs)
      | _ \<Rightarrow> Undefined)"

definition asBoolean :: "jsval \<Rightarrow> jsval" where
  "asBoolean val = (case val of Bool b \<Rightarrow> Bool b | _ \<Rightarrow> Undefined)"

definition asNumber :: "jsval \<Rightarrow> jsval" where
  "asNumber val = (case val of Num (Finite r) \<Rightarrow> Num (Finite r) | _ \<Rightarrow> Undefined)"

text \<open>\<open>v?.trim()\<close> and \<open>v?.toLowerCase()\<close> on a string or \<open>undefined\<close>; \<open>a || b\<close>; \<open>a ?? b\<close>.\<close>

definition optTrim :: "jsval \<Rightarrow> jsval" where
  "optTrim v = (case v of Str s \<Rightarrow> Str (trim s) | _ \<Rightarrow> Undefined)"

definition optLower :: "host \<Rightarrow> jsval \<Rightarrow> jsval" where
  "optLower h v = (case v of Str s \<Rightarrow> Str (toLowerCase h s) | _ \<Rightarrow> Undefined)"

definition orElse :: "jsval \<Rightarrow> jsval \<Rightarrow> jsval" where
  "orElse a b = (if truthy a then a else b)"

definition nullish :: "jsval \<Rightarrow> jsval \<Rightarrow> jsval" where
  "nullish a b = (if a = Undefined \<or> a = Null then b else a)"

text \<open>\<open>...(c ? { k: v } : {})\<close> inside an object literal.\<close>

definition spreadIf :: "bool \<Rightarrow> string \<Rightarrow> jsval \<Rightarrow> (string \<times> jsval) list" where
  "spreadIf c k v = (if c then [(k, v)] else [])"

definition normalizeProviderToml :: "jsstring \<Rightarrow> jsval \<Rightarrow> jsval" where
  "normalizeProviderToml providerId providerToml =
     (let name = optTrim (asString (get providerToml ''name''));
          env = asStringArray (get providerToml ''env'');
          npm = optTrim (asString (get providerToml ''npm''));
          doc = optTrim (asString (get providerToml ''doc''));
          api = optTrim (asString (get providerToml ''api''))
      in Obj [(''id'', Str providerId),
              (''name'', orElse name (Str providerId)),
              (''env'', orElse env (Arr [])),
              (''npm'', orElse npm (Str [])),
              (''doc'', orElse doc (Str [])),
              (''api'', orElse api Undefined)])"

definition normalizeModelToml :: "host \<Rightarrow> jsstring \<Rightarrow> jsstring \<Rightarrow> jsval \<Rightarrow> jsval" where
  "normalizeModelToml h providerId modelId modelToml =
     (let nameRaw = optTrim (asString (get modelToml ''name''));
          family = optTrim (asString (get modelToml ''family''));
          releaseDate = optTrim (asString (get modelToml ''release_date''));
          lastUpdated = optTrim (asString (get modelToml ''last_updated''));
          attachment = asBoolean (get modelToml ''attachment'');
          reasoning = asBoolean (get modelToml ''reasoning'');
          toolCall = asBoolean (get modelToml ''tool_call'');
          openWeights = asBoolean (get modelToml ''open_weights'');
          temperature = asBoolean (get modelToml ''temperature'');
          structuredOutput = asBoolean (get modelToml ''structured_output'');
          knowledge = optTrim (asString (get modelToml ''knowledge''));
          statusRaw = optLower h (optTrim (asString (get modelToml ''status'')));
          status = (if truthy statusRaw \<and> strOf statusRaw \<in> set ALLOWED_STATUSES
                    then statusRaw else Undefined);
          description = optTrim (asString (get modelToml ''description''));
          cost = (if isPlainObject (get modelToml ''cost'') then get modelToml ''cost'' else Undefined);
          limit = (if isPlainObject (get modelToml ''limit'') then get modelToml ''limit'' else Undefined);
          limitContext = asNumber (get limit ''context'');
          limitOutput = asNumber (get limit ''output'');
          limitInput = asNumber (get limit ''input'');
          modalities = (if isPlainObject (get modelToml ''modalities'')
                        then get modelToml ''modalities'' else Undefined);
          modInput = orElse (asStringArray (get modalities ''input'')) (Arr []);
          modOutput = orElse (asStringArray (get modalities ''output'')) (Arr [])
      in Obj [(''id'', Str modelId),
              (''name'', orElse nameRaw (Str modelId)),
              (''family'', orElse family Undefined),
              (''provider'', Str providerId),
              (''release_date'', orElse releaseDate Null),
              (''last_updated'', orElse lastUpdated Null),
              (''attachment'', nullish attachment (Bool False)),
              (''reasoning'', nullish reasoning (Bool False)),
              (''tool_call'', nullish toolCall (Bool False)),
              (''open_weights'', nullish openWeights (Bool False)),
              (''temperature'', nullish temperature Undefined),
              (''structured_output'', nullish structuredOutput Undefined),
              (''knowledge'', orElse knowledge Undefined),
              (''status'', orElse status Undefined),
              (''description'', orElse description Undefined),
              (''cost'', orElse cost Undefined),
              (''limit'', Obj ([(''context'', nullish limitContext Null),
                                (''output'', nullish limitOutput Null)]
                               @ spreadIf (limitInput \<noteq> Undefined) ''input'' limitInput)),
              (''modalities'', Obj [(''input'', modInput), (''output'', modOutput)])])"

definition publicCost :: "jsval \<Rightarrow> jsval" where
  "publicCost modelInternal =
     (let c = get modelInternal ''cost''
      in if \<not> isPlainObject c then Undefined
         else
           (let input = asNumber (get c ''input'');
                output = asNumber (get c ''output'')
            in if input = Undefined \<and> output = Undefined then Undefined
               else Obj (spreadIf (input \<noteq> Undefined) ''input'' input
                         @ spreadIf (output \<noteq> Undefined) ''output'' output)))"

definition toPublicModel :: "jsval \<Rightarrow> jsval" where
  "toPublicModel modelInternal =
     Obj ([(''id'', get modelInternal ''id''),
           (''name'', get modelInternal ''name'')]
          @ spreadIf (truthy (get modelInternal ''family'')) ''family'' (get modelInternal ''family'')
          @ [(''provider'', get modelInternal ''provider''),
             (''release_date'', get modelInternal ''release_date''),
             (''last_updated'', get modelInternal ''last_updated''),
             (''attachment'', get modelInternal ''attachment''),
             (''reasoning'', get modelInternal ''reasoning''),
             (''tool_call'', get modelInternal ''tool_call''),
             (''open_weights'', get modelInternal ''open_weights'')]
          @ spreadIf (get modelInternal ''temperature'' \<noteq> Undefined) ''temperature''
              (get modelInternal ''temperature'')
          @ spreadIf (get modelInternal ''structured_output'' \<noteq> Undefined) ''structured_output''
              (get modelInternal ''structured_output'')
          @ spreadIf (truthy (get modelInternal ''knowledge'')) ''knowledge''
              (get modelInternal ''knowledge'')
          @ spreadIf (truthy (get modelInternal ''status'')) ''status'' (get modelInternal ''status'')
          @ spreadIf (truthy (get modelInternal ''description'')) ''description''
              (Str (truncate (get modelInternal ''description'') PUBLIC_DESC_MAX_CHARS))
          @ [(''modalities'', get modelInternal ''modalities''),
             (''limit'', get modelInternal ''limit'')]
          @ spreadIf (truthy (publicCost modelInternal)) ''cost'' (publicCost modelInternal))"

text \<open>\<open>readTomlFile\<close>: the parsed document, or \<open>null\<close> when reading or parsing fails.\<close>

definition readTomlFile :: "host \<Rightarrow> node option \<Rightarrow> jsval" where
  "readTomlFile h tomlFile =
     (case tomlFile of
        Some (File raw) \<Rightarrow> (case parseToml h raw of Some v \<Rightarrow> v | None \<Rightarrow> Null)
      | _ \<Rightarrow> Null)"

definition listProviderDirs :: "host \<Rightarrow> node \<Rightarrow> jsstring list" where
  "listProviderDirs h providersRoot =
     sortAlphaCaseInsensitive h
       (map fst (filter (\<lambda>ent. direntIsDirectory (snd ent) \<and> \<not> shouldExcludePath h (fst ent) True)
                   (readdir providersRoot)))"

text \<open>
  \<open>listModelTomlFiles\<close>: the walk collects the regular files whose lower-cased name ends
  in \<open>.toml\<close>, each with its path relative to \<open>models/\<close>; the list is sorted by that path.
\<close>

function walkToml :: "host \<Rightarrow> jsstring \<Rightarrow> (jsstring \<times> node) list \<Rightarrow> (jsstring \<times> node) list" where
  "walkToml h relFromModelsRoot [] = []"
| "walkToml h relFromModelsRoot ((name, ent) # entries) =
     (let childRel = (if relFromModelsRoot \<noteq> [] then relFromModelsRoot @ [47] @ name else name)
      in (if shouldExcludePath h childRel (direntIsDirectory ent) then []
          else (case ent of
                  Dir ds \<Rightarrow> walkToml h childRel ds
                | File _ \<Rightarrow> if endsWith (toLowerCase h name) (js ''.toml'') then [(childRel, ent)] else []
                | Other \<Rightarrow> []))
         @ walkToml h relFromModelsRoot entries)"
  by pat_completeness auto
termination
  by (relation "measure (\<lambda>(h, rel, es). size_list (size_prod (\<lambda>_. 0) size) es)") auto

definition listModelTomlFiles :: "host \<Rightarrow> node \<Rightarrow> (jsstring \<times> node) list" where
  "listModelTomlFiles h modelsRoot =
     sortBy (\<lambda>a b. localeCompare h (fst a) (fst b)) (walkToml h [] (readdir modelsRoot))"

text \<open>
  \<open>relPosix.replace(/\.toml$/i, '')\<close>: without the \<open>u\<close> flag, \<open>/i\<close> matches the letters of
  the pattern in either ASCII case and nothing else.
\<close>

definition asciiLower :: "jsstring \<Rightarrow> jsstring" where
  "asciiLower s = map (\<lambda>c. if 65 \<le> c \<and> c \<le> 90 then c + 32 else c) s"

definition stripTomlSuffix :: "jsstring \<Rightarrow> jsstring" where
  "stripTomlSuffix s =
     (if endsWith (asciiLower s) (js ''.toml'') then take (length s - 5) s else s)"

text \<open>The models of one provider, normalised and sorted by their visible names.\<close>

definition modelOfFile :: "host \<Rightarrow> jsstring \<Rightarrow> jsstring \<times> node \<Rightarrow> jsval list" where
  "modelOfFile h providerId f =
     (let relPosix = joinSlash (splitSlash (fst f));
          modelId = stripTomlSuffix relPosix;
          parsed = readTomlFile h (Some (snd f))
      in if \<not> truthy parsed then []
         else [normalizeModelToml h providerId modelId parsed])"

definition providerOutInternal :: "jsval \<Rightarrow> bool \<Rightarrow> jsval list \<Rightarrow> jsval" where
  "providerOutInternal providerMeta hasLogo modelsInternal =
     Obj ([(''id'', get providerMeta ''id''),
           (''name'', get providerMeta ''name''),
           (''env'', get providerMeta ''env''),
           (''npm'', get providerMeta ''npm''),
           (''doc'', get providerMeta ''doc'')]
          @ spreadIf (truthy (get providerMeta ''api'')) ''api'' (get providerMeta ''api'')
          @ [(''has_logo'', Bool hasLogo),
             (''model_count'', num (length modelsInternal)),
             (''models'', Arr modelsInternal)])"

definition providerOutPublic :: "jsval \<Rightarrow> bool \<Rightarrow> jsval list \<Rightarrow> jsval" where
  "providerOutPublic providerMeta hasLogo modelsInternal =
     Obj ([(''id'', get providerMeta ''id''),
           (''name'', get providerMeta ''name''),
           (''npm'', get providerMeta ''npm''),
           (''doc'', get providerMeta ''doc'')]
          @ spreadIf (truthy (get providerMeta ''api'')) ''api'' (get providerMeta ''api'')
          @ [(''has_logo'', Bool hasLogo),
             (''model_count'', num (length modelsInternal)),
             (''models'', Arr (map toPublicModel modelsInternal))])"

text \<open>
  The body of the loop over the providers. The accumulator holds
  \<open>manifestInternal.providers\<close>, \<open>manifestPublic.providers\<close> and \<open>modelTotal\<close>.
\<close>

definition processProvider ::
  "host \<Rightarrow> node \<Rightarrow> jsval list \<times> jsval list \<times> nat \<Rightarrow> jsstring \<Rightarrow> jsval list \<times> jsval list \<times> nat" where
  "processProvider h providersRoot acc providerId =
     (case acc of (providersInternal, providersPublic, modelTotal) \<Rightarrow>
      (let providerDir = child (Some providersRoot) providerId;
           providerTomlPath = child providerDir (js ''provider.toml'');
           providerToml = (if pathExists providerTomlPath then readTomlFile h providerTomlPath
                           else Null);
           providerMeta = normalizeProviderToml providerId (orElse providerToml (Obj []));
           hasLogo = pathExists (child providerDir (js ''logo.svg''));
           modelsRoot = child providerDir (js ''models'');
           modelFiles = (case modelsRoot of
                           Some (Dir ds) \<Rightarrow> listModelTomlFiles h (Dir ds)
                         | _ \<Rightarrow> []);
           modelsInternal = sortByName h (concat (map (modelOfFile h providerId) modelFiles))
       in (providersInternal @ [providerOutInternal providerMeta hasLogo modelsInternal],
           providersPublic @ [providerOutPublic providerMeta hasLogo modelsInternal],
           modelTotal + length modelsInternal)))"

definition definitionsManifest :: "jsstring \<Rightarrow> jsval list \<Rightarrow> nat \<Rightarrow> jsval" where
  "definitionsManifest generatedAt providers modelTotal =
     Obj [(''version'', Str VERSION),
          (''generated_at'', Str generatedAt),
          (''base_url'', Str BASE_URL),
          (''total_providers'', num (length providers)),
          (''total_models'', num modelTotal),
          (''providers'', Arr providers)]"

definition buildDefinitions :: "host \<Rightarrow> node \<Rightarrow> jsval list \<times> jsval list \<times> nat" where
  "buildDefinitions h providersRoot =
     foldl (processProvider h providersRoot) ([], [], 0) (listProviderDirs h providersRoot)"

definition definitionsInternalManifest :: "host \<Rightarrow> node \<Rightarrow> jsstring \<Rightarrow> jsval" where
  "definitionsInternalManifest h providersRoot generatedAt =
     (case buildDefinitions h providersRoot of (providersInternal, providersPublic, modelTotal) \<Rightarrow>
        definitionsManifest generatedAt (sortByName h providersInternal) modelTotal)"

definition definitionsPublicManifest :: "host \<Rightarrow> node \<Rightarrow> jsstring \<Rightarrow> jsval" where
  "definitionsPublicManifest h providersRoot generatedAt =
     (case buildDefinitions h providersRoot of (providersInternal, providersPublic, modelTotal) \<Rightarrow>
        definitionsManifest generatedAt (sortByName h providersPublic) modelTotal)"

definition publicDefinitionsDir :: "host \<Rightarrow> jsstring" where
  "publicDefinitionsDir h = resolve h [publicDir h, js ''definitions'']"

text \<open>
  \<open>main\<close> of the definitions script. A missing providers root is reported with
  \<open>error(...)\<close> and \<open>main\<close> returns; otherwise the manifests are built, the three output
  paths are checked with \<open>assertInsideDir\<close>, which throws on a path that escapes, and the
  files are written.
\<close>

definition definitionsMain :: "host \<Rightarrow> node option \<Rightarrow> jsstring \<Rightarrow> run_result" where
  "definitionsMain h providersRootDir generatedAt =
     (case providersRootDir of
        Some (Dir es) \<Rightarrow>
          (if escapes h (publicDefinitionsDir h)
                (resolve h [publicDefinitionsDir h, js ''definitions.json''])
              \<or> escapes h (astroDataDir h)
                   (resolve h [astroDataDir h, js ''definitions-catalog.json''])
              \<or> escapes h (publicDefinitionsDir h)
                   (resolve h [publicDefinitionsDir h, js ''schema.json''])
           then \<lparr> threw = True, trace = [EnsureDirs] \<rparr>
           else
             \<lparr> threw = False,
               trace = [EnsureDirs,
                 WriteJson PublicManifest (definitionsPublicManifest h (Dir es) generatedAt),
                 WriteJson InternalCatalog (definitionsInternalManifest h (Dir es) generatedAt),
                 WriteJson Schema Undefined] \<rparr>)
      | _ \<Rightarrow> \<lparr> threw = False, trace = [EnsureDirs, ErrorLog] \<rparr>)"

section \<open>Serialization\<close>











section \<open>Listing order\<close>

text \<open>
  \<open>readdir\<close> promises no order. Two listings hold the same entries when each names every
  entry once and they have the same set of entries; two corpus roots are the same corpus
  when their listings name the same entries and every entry is the same node, or is a
  directory on both sides with the same entries, listed in whatever order.
\<close>

definition sameEntries :: "(jsstring \<times> node) list \<Rightarrow> (jsstring \<times> node) list \<Rightarrow> bool" where
  "sameEntries es es' \<longleftrightarrow> distinct (map fst es) \<and> distinct (map fst es') \<and> set es' = set es"

definition sameChild :: "node option \<Rightarrow> node option \<Rightarrow> bool" where
  "sameChild c c' =
     (case c of
        Some (Dir es) \<Rightarrow> (case c' of Some (Dir es') \<Rightarrow> sameEntries es es' | _ \<Rightarrow> False)
      | _ \<Rightarrow> c' = c)"





section \<open>A sample host\<close>

text \<open>
  A host for evaluating the model on concrete inputs: case folding of the ASCII letters,
  comparison of the folded strings by code unit, and parsers that read a document made of
  a single digit as a fixed value.
\<close>

fun compareUnits :: "jsstring \<Rightarrow> jsstring \<Rightarrow> int" where
  "compareUnits [] [] = 0"
| "compareUnits [] (y # ys) = - 1"
| "compareUnits (x # xs) [] = 1"
| "compareUnits (x # xs) (y # ys) =
     (if x < y then - 1 else if y < x then 1 else compareUnits xs ys)"

definition sampleHost :: host where
  "sampleHost =
     \<lparr> toLowerCase = asciiLower,
       localeCompare = (\<lambda>a b. compareUnits (asciiLower a) (asciiLower b)),
       matter = (\<lambda>raw. if raw = js ''1'' then Some (Obj [(''name'', Str (js ''Alpha'')),
                                  (''description'', Str (js ''first''))])
                        else if raw = js ''2'' then Some (Obj []) else None),
       parseToml = (\<lambda>raw. if raw = js ''1'' then Some (Obj [(''name'', Str (js ''One''))])
                           else None),
       archive = (\<lambda>folder tree out. if folder = js ''bad'' then None else Some 100),
       cwd = js ''/repo/website'',
       websiteDir = js ''/repo/website'' \<rparr>"

text \<open>
  A skills root with two groups whose names differ only in a separator and in case and a
  folder name that occurs in both groups; and a providers root with one provider and one
  model.
\<close>

definition sampleSkillsRoot :: node where
  "sampleSkillsRoot =
     Dir [(js ''Dev Tools'',
             Dir [(js ''alpha'', Dir [(js ''SKILL.md'', File (js ''1'')),
                                      (js ''scripts'', Dir []),
                                      (js ''.gitkeep'', File [])]),
                  (js ''notes.txt'', File [])]),
          (js ''dev-tools'',
             Dir [(js ''alpha'', Dir [(js ''SKILL.md'', File (js ''2''))]),
                  (js ''beta'', Dir [(js ''SKILL.md'', File (js ''2'')),
                                     (js ''LICENSE'', File [])])])]"

definition sampleProvidersRoot :: node where
  "sampleProvidersRoot =
     Dir [(js ''acme'',
             Dir [(js ''provider.toml'', File (js ''1'')),
                  (js ''models'', Dir [(js ''m.toml'', File (js ''1''))])])]"

definition sampleTime :: jsstring where
  "sampleTime = js ''2024-01-01T00:00:00.000Z''"




section \<open>Properties\<close>

subsection \<open>The exclusion filter on dot-prefixed names\<close>

lemma splitSlash_not_Nil: "splitSlash s \<noteq> []"
  by (induction s) (auto split: list.splits)

lemma joinSlash_Cons: "ps \<noteq> [] \<Longrightarrow> joinSlash (p # ps) = p @ 47 # joinSlash ps"
  by (cases ps) auto

lemma joinSlash_splitSlash: "joinSlash (splitSlash s) = s"
proof (induction s)
  case Nil
  show ?case by simp
next
  case (Cons c cs)
  obtain p ps where sp: "splitSlash cs = p # ps"
    using splitSlash_not_Nil [of cs] by (cases "splitSlash cs") auto
  show ?case
  proof (cases "c = 47")
    case True
    with Cons show ?thesis by (simp add: joinSlash_Cons splitSlash_not_Nil)
  next
    case False
    with Cons sp show ?thesis by (cases ps) auto
  qed
qed

text \<open>
  Claim C3. For a relative path whose basename starts with a dot: as a directory it is
  always excluded; as a file it is not excluded when none of the fixed rules matches it,
  that is, when its basename is none of the listed names, does not start with \<open>.env.\<close>,
  its lower-cased basename is no key name and has none of the listed extensions, the path
  runs through no version-control directory, and no segment of it is a denied directory
  name. The dot alone never excludes a file.
\<close>

theorem dot_prefixed_exclusion:
  assumes dot: "startsWith (basename rel) (js ''.'')"
  shows "shouldExcludePath h rel True \<and>
    (basename rel \<noteq> js ''.DS_Store''
      \<and> basename rel \<noteq> js ''.git'' \<and> basename rel \<noteq> js ''.svn'' \<and> basename rel \<noteq> js ''.hg''
      \<and> \<not> includesStr rel (js ''/.git/'') \<and> \<not> includesStr rel (js ''/.svn/'')
      \<and> \<not> includesStr rel (js ''/.hg/'')
      \<and> basename rel \<noteq> js ''.env'' \<and> \<not> startsWith (basename rel) (js ''.env.'')
      \<and> basename rel \<noteq> js ''.npmrc'' \<and> basename rel \<noteq> js ''.yarnrc''
      \<and> basename rel \<noteq> js ''.yarnrc.yml'' \<and> basename rel \<noteq> js ''.pypirc''
      \<and> toLowerCase h (basename rel) \<noteq> js ''id_rsa''
      \<and> toLowerCase h (basename rel) \<noteq> js ''id_ed25519''
      \<and> (\<forall>ext \<in> {js ''.pyc'', js ''.pem'', js ''.key'', js ''.p12'', js ''.pfx'',
                    js ''.swp'', js ''.swo''}.
            \<not> endsWith (toLowerCase h (basename rel)) ext)
      \<and> (\<forall>seg \<in> set (splitSlash rel). seg \<notin> set excludedDirNames)
     \<longrightarrow> \<not> shouldExcludePath h rel False)"
  using dot by (auto simp add: shouldExcludePath_def joinSlash_splitSlash Let_def)

theorem dot_prefixed_exclusion_witness:
  "startsWith (basename (js ''a/.gitkeep'')) (js ''.'')
   \<and> shouldExcludePath sampleHost (js ''a/.gitkeep'') True
   \<and> \<not> shouldExcludePath sampleHost (js ''a/.gitkeep'') False"
proof -
  have dot: "startsWith (basename (js ''a/.gitkeep'')) (js ''.'')"
    by (simp add: basename_def js_def)
  have "\<not> shouldExcludePath sampleHost (js ''a/.gitkeep'') False"
    by (rule dot_prefixed_exclusion [OF dot, of sampleHost, THEN conjunct2, rule_format])
       (simp add: basename_def js_def sampleHost_def asciiLower_def endsWith_def
          excludedDirNames_def)
  with dot dot_prefixed_exclusion [OF dot, of sampleHost] show ?thesis by blast
qed

text \<open>
  A dot-prefixed file below a denied directory is excluded, by the rule for the directory
  and not for its dot.
\<close>

lemma dot_file_in_denied_directory:
  "shouldExcludePath sampleHost (js ''node_modules/.gitkeep'') False
   \<and> \<not> shouldExcludePath sampleHost (js ''skill/.gitkeep'') False"
  by (simp add: shouldExcludePath_def sampleHost_def js_def asciiLower_def basename_def
        endsWith_def excludedDirNames_def Let_def)

subsection \<open>Truncation\<close>





text \<open>
  Claim C10. \<open>truncate\<close> is a total function that clamps its arguments: the result is
  empty when the value is not a string, and when the budget is not a finite positive number;
  for a string and a positive integer budget the result is no longer than the budget, and
  a budget of \<open>1\<close> with a longer string gives the ellipsis alone.
\<close>

theorem truncate_total_clamped:
  "((\<forall>s. str \<noteq> Str s) \<longrightarrow> truncate str maxChars = [])
   \<and> ((\<forall>m. maxChars = Num (Finite m) \<longrightarrow> m \<le> 0) \<longrightarrow> truncate str maxChars = [])
   \<and> (0 < k \<longrightarrow> int (length (truncate (Str s) (Num (Finite (of_int k))))) \<le> k)
   \<and> (1 < length s \<longrightarrow> truncate (Str s) (Num (Finite 1)) = ellipsis)"
proof (intro conjI impI)
  assume "\<forall>s. str \<noteq> Str s"
  then show "truncate str maxChars = []"
    by (cases str) (simp_all add: truncate_def)
next
  assume "\<forall>m. maxChars = Num (Finite m) \<longrightarrow> m \<le> 0"
  then show "truncate str maxChars = []"
    by (auto simp: truncate_def split: jsval.splits jsnum.splits)
next
  assume k: "0 < k"
  show "int (length (truncate (Str s) (Num (Finite (of_int k))))) \<le> k"
  proof (cases "int (length s) \<le> k")
    case True
    then have "(of_nat (length s) :: rat) \<le> of_int k"
      by (metis of_int_le_iff of_int_of_nat_eq)
    with k True show ?thesis by (simp add: truncate_def)
  next
    case False
    then have "\<not> (of_nat (length s) :: rat) \<le> of_int k"
      by (metis of_int_le_iff of_int_of_nat_eq)
    moreover have "toInteger (of_int k - 1) = k - 1"
      using k by (simp add: toInteger_def)
    ultimately show ?thesis
      using k False by (auto simp: truncate_def ellipsis_def slice0_def)
  qed
next
  assume "1 < length s"
  then show "truncate (Str s) (Num (Finite 1)) = ellipsis"
    by (simp add: truncate_def)
qed

theorem truncate_total_clamped_witness:
  "truncate (Num (Finite 3)) (Num (Finite 5)) = []
   \<and> truncate (Str (js ''abc'')) (Num NaN) = []
   \<and> truncate (Str (js ''abc'')) (Num (Finite (- 2))) = []
   \<and> int (length (truncate (Str (js ''abcdef'')) (Num (Finite (of_int 3))))) \<le> 3
   \<and> truncate (Str (js ''abc'')) (Num (Finite 1)) = ellipsis"
proof -
  have a: "truncate (Num (Finite 3)) (Num (Finite 5)) = []"
    using truncate_total_clamped [of "Num (Finite 3)" "Num (Finite 5)" 1 "[]"] by simp
  have b: "truncate (Str (js ''abc'')) (Num NaN) = []"
    using truncate_total_clamped [of "Str (js ''abc'')" "Num NaN" 1 "[]"] by simp
  have c: "truncate (Str (js ''abc'')) (Num (Finite (- 2))) = []"
    using truncate_total_clamped [of "Str (js ''abc'')" "Num (Finite (- 2))" 1 "[]"] by simp
  have d: "int (length (truncate (Str (js ''abcdef'')) (Num (Finite (of_int 3))))) \<le> 3"
    using truncate_total_clamped [of Undefined Undefined 3 "js ''abcdef''"] by simp
  have e: "truncate (Str (js ''abc'')) (Num (Finite 1)) = ellipsis"
    using truncate_total_clamped [of Undefined Undefined 1 "js ''abc''"] by (simp add: js_def)
  from a b c d e show ?thesis by blast
qed

subsection \<open>The shape of the loops\<close>

lemma processSkill_lists:
  "\<exists>st'. processSkill h g slug (st, P, I) s = (st', P, I)
     \<or> (\<exists>name desc z c k.
          processSkill h g slug (st, P, I) s =
            (st', P @ [skillPublic name desc slug (fst s) z c k],
                  I @ [skillInternal name desc slug (fst s) z c k]))"
  by (simp add: processSkill_def Let_def split: prod.splits option.splits) blast

lemma foldl_processSkill_rel:
  assumes Q: "\<And>name desc f z c k.
      Q (skillPublic name desc slug f z c k) (skillInternal name desc slug f z c k)"
  shows "list_all2 Q P I \<Longrightarrow>
    list_all2 Q (fst (snd (foldl (processSkill h g slug) (st, P, I) ss)))
                (snd (snd (foldl (processSkill h g slug) (st, P, I) ss)))"
proof (induction ss arbitrary: st P I)
  case Nil
  then show ?case by simp
next
  case (Cons s ss)
  from processSkill_lists [of h g slug st P I s]
  obtain st' P' I' where step: "processSkill h g slug (st, P, I) s = (st', P', I')"
    and rel: "list_all2 Q P' I'"
    using Cons.prems Q by (auto simp: list_all2_appendI)
  show ?case using Cons.IH [OF rel, of st'] step by simp
qed

lemma insortBy_rel:
  assumes key: "\<And>x y. R x y \<Longrightarrow> key x = key y"
  shows "list_all2 R xs ys \<Longrightarrow> R x y \<Longrightarrow>
    list_all2 R (insortBy (\<lambda>a b. cmp (key a) (key b)) x xs)
                (insortBy (\<lambda>a b. cmp (key a) (key b)) y ys)"
proof (induction xs ys rule: list_all2_induct)
  case Nil
  then show ?case by simp
next
  case (Cons a xs b ys)
  then show ?case using key [of x y] key [of a b] by auto
qed

lemma sortBy_rel:
  assumes key: "\<And>x y. R x y \<Longrightarrow> key x = key y"
  shows "list_all2 R xs ys \<Longrightarrow>
    list_all2 R (sortBy (\<lambda>a b. cmp (key a) (key b)) xs) (sortBy (\<lambda>a b. cmp (key a) (key b)) ys)"
  unfolding sortBy_def
  by (induction xs ys rule: list_all2_induct) (auto intro: insortBy_rel [OF key])

lemma sortByName_rel:
  assumes "\<And>x y. R x y \<Longrightarrow> get x ''name'' = get y ''name''"
  shows "list_all2 R xs ys \<Longrightarrow> list_all2 R (sortByName h xs) (sortByName h ys)"
  unfolding sortByName_def
  using sortBy_rel [where key = "\<lambda>a. strOf (get a ''name'')" and R = R and cmp = "localeCompare h"]
    assms by simp

lemma length_insortBy: "length (insortBy cmp x xs) = Suc (length xs)"
  by (induction xs) auto

lemma length_sortBy: "length (sortBy cmp xs) = length xs"
  by (induction xs) (auto simp: sortBy_def length_insortBy)

lemma set_insortBy: "set (insortBy cmp x xs) = insert x (set xs)"
  by (induction xs) auto

lemma set_sortBy: "set (sortBy cmp xs) = set xs"
  by (induction xs) (auto simp: sortBy_def set_insortBy)

lemma sum_list_insortBy:
  "sum_list (map f (insortBy cmp x xs)) = (f x + sum_list (map f xs) :: nat)"
  by (induction xs) auto

lemma sum_list_sortBy: "sum_list (map f (sortBy cmp xs)) = (sum_list (map f xs) :: nat)"
  by (induction xs) (auto simp: sortBy_def sum_list_insortBy)

lemma processGroup_rel:
  assumes G: "\<And>name skillsP skillsI. list_all2 Q skillsP skillsI \<Longrightarrow>
      R (groupOut name (slugifyGroupName h name) skillsP)
        (groupOut name (slugifyGroupName h name) skillsI)"
    and Q: "\<And>slug name desc f z c k.
      Q (skillPublic name desc slug f z c k) (skillInternal name desc slug f z c k)"
    and name: "\<And>x y. Q x y \<Longrightarrow> get x ''name'' = get y ''name''"
    and rel: "list_all2 R gp gi"
  shows "list_all2 R (fst (snd (processGroup h r (st, gp, gi) n)))
                     (snd (snd (processGroup h r (st, gp, gi) n)))"
proof -
  let ?f = "foldl (processSkill h n (slugifyGroupName h n)) (st, [], [])
              (listSkillDirs h (child (Some r) n))"
  have "list_all2 Q (fst (snd ?f)) (snd (snd ?f))"
    by (rule foldl_processSkill_rel [where Q = Q]) (simp_all add: Q)
  then have "list_all2 Q (sortByName h (fst (snd ?f))) (sortByName h (snd (snd ?f)))"
    using sortByName_rel [where R = Q] name by blast
  from G [OF this] rel show ?thesis
    by (simp add: processGroup_def Let_def split: prod.splits) (auto simp: list_all2_appendI)
qed

lemma buildSkills_rel_aux:
  assumes G: "\<And>name skillsP skillsI. list_all2 Q skillsP skillsI \<Longrightarrow>
      R (groupOut name (slugifyGroupName h name) skillsP)
        (groupOut name (slugifyGroupName h name) skillsI)"
    and Q: "\<And>slug name desc f z c k.
      Q (skillPublic name desc slug f z c k) (skillInternal name desc slug f z c k)"
    and name: "\<And>x y. Q x y \<Longrightarrow> get x ''name'' = get y ''name''"
  shows "list_all2 R gp gi \<Longrightarrow>
         list_all2 R (fst (snd (foldl (processGroup h r) (st, gp, gi) ns)))
                     (snd (snd (foldl (processGroup h r) (st, gp, gi) ns)))"
proof (induction ns arbitrary: st gp gi)
  case Nil
  then show ?case by simp
next
  case (Cons n ns)
  obtain st' gp' gi' where step: "processGroup h r (st, gp, gi) n = (st', gp', gi')"
    by (cases "processGroup h r (st, gp, gi) n") auto
  from processGroup_rel [of Q R h gp gi r st n, OF G Q name Cons.prems] step
  have "list_all2 R gp' gi'" by simp
  from Cons.IH [OF this, of st'] step show ?case by simp
qed

lemma buildSkills_rel:
  assumes G: "\<And>name skillsP skillsI. list_all2 Q skillsP skillsI \<Longrightarrow>
      R (groupOut name (slugifyGroupName h name) skillsP)
        (groupOut name (slugifyGroupName h name) skillsI)"
    and Q: "\<And>slug name desc f z c k.
      Q (skillPublic name desc slug f z c k) (skillInternal name desc slug f z c k)"
    and name: "\<And>x y. Q x y \<Longrightarrow> get x ''name'' = get y ''name''"
  shows "list_all2 R (fst (snd (buildSkills h r))) (snd (snd (buildSkills h r)))"
  unfolding buildSkills_def
  by (rule buildSkills_rel_aux [of Q R, OF G Q name]) simp_all

subsection \<open>Exit status\<close>

text \<open>
  Claim C6 as stated fails for the definitions script: with no providers root its \<open>main\<close>
  reports the error and returns, so the process ends with status \<open>0\<close>.
\<close>

theorem definitions_missing_root_exits_zero:
  "exitStatus (definitionsMain sampleHost None sampleTime) = 0"
  by (simp add: definitionsMain_def exitStatus_def)

text \<open>
  Claim C6, amended. When the corpus root is missing or is not a directory, the skills
  script throws after making its output directories and the process ends with status
  \<open>1\<close>; the definitions script logs an error, writes nothing and ends with status \<open>0\<close>.
  Neither writes a manifest.
\<close>

theorem missing_root_outcome:
  assumes "\<not> isDirectory rootDir"
  shows "exitStatus (skillsMain h rootDir t) = 1
    \<and> trace (skillsMain h rootDir t) = [EnsureDirs]
    \<and> exitStatus (definitionsMain h rootDir t) = 0
    \<and> trace (definitionsMain h rootDir t) = [EnsureDirs, ErrorLog]"
  using assms
  by (auto simp: isDirectory_def skillsMain_def definitionsMain_def exitStatus_def
        split: option.splits node.splits)

theorem missing_root_outcome_witness:
  "\<not> isDirectory None
   \<and> exitStatus (skillsMain sampleHost None sampleTime) = 1
   \<and> trace (skillsMain sampleHost None sampleTime) = [EnsureDirs]
   \<and> exitStatus (definitionsMain sampleHost (Some (File [])) sampleTime) = 0
   \<and> trace (definitionsMain sampleHost (Some (File [])) sampleTime) = [EnsureDirs, ErrorLog]"
proof -
  have a: "\<not> isDirectory None" and b: "\<not> isDirectory (Some (File []))"
    by (simp_all add: isDirectory_def)
  from missing_root_outcome [OF a, of sampleHost sampleTime]
       missing_root_outcome [OF b, of sampleHost sampleTime] a
  show ?thesis by blast
qed

subsection \<open>Counts and slugs\<close>

lemma get_groupOut:
  "get (groupOut n s skills) ''name'' = Str n"
  "get (groupOut n s skills) ''slug'' = Str s"
  "get (groupOut n s skills) ''skill_count'' = num (length skills)"
  "get (groupOut n s skills) ''skills'' = Arr skills"
  by (simp_all add: groupOut_def get_def props_def)

lemma get_skillsManifest:
  "get (skillsManifest t gs) ''groups'' = Arr gs"
  "get (skillsManifest t gs) ''total_skills'' = sumField ''skill_count'' gs"
  by (simp_all add: skillsManifest_def get_def props_def)

lemma foldl_count:
  "\<forall>g \<in> set gs. get g k = num (f g) \<Longrightarrow>
   foldl (\<lambda>acc g. acc + numberOf (get g k)) a gs = a + of_nat (sum_list (map f gs))"
  by (induction gs arbitrary: a) (auto simp: numberOf_def num_def)

lemma sumField_counts:
  "\<forall>g \<in> set gs. get g k = num (f g) \<Longrightarrow> sumField k gs = num (sum_list (map f gs))"
  using foldl_count [of gs k f 0] by (simp add: sumField_def num_def)

lemma buildSkills_groups_all:
  assumes "\<And>name skills. P (groupOut name (slugifyGroupName h name) skills)"
  shows "(\<forall>g \<in> set (fst (snd (buildSkills h r))). P g)
       \<and> (\<forall>g \<in> set (snd (snd (buildSkills h r))). P g)"
proof -
  have "list_all2 (\<lambda>x y. P x \<and> P y) (fst (snd (buildSkills h r))) (snd (snd (buildSkills h r)))"
    by (rule buildSkills_rel [where Q = "\<lambda>x y. get x ''name'' = get y ''name''"])
       (simp_all add: assms skillPublic_def skillInternal_def get_def props_def)
  then show ?thesis
    by (auto simp: list_all2_conv_all_nth in_set_conv_nth)
qed

lemma get_providerOut:
  "get (providerOutInternal meta logo ms) ''name'' = get meta ''name''"
  "get (providerOutPublic meta logo ms) ''name'' = get meta ''name''"
  "get (providerOutInternal meta logo ms) ''id'' = get meta ''id''"
  "get (providerOutPublic meta logo ms) ''id'' = get meta ''id''"
  "get (providerOutInternal meta logo ms) ''model_count'' = num (length ms)"
  "get (providerOutPublic meta logo ms) ''model_count'' = num (length ms)"
  "get (providerOutInternal meta logo ms) ''models'' = Arr ms"
  "get (providerOutPublic meta logo ms) ''models'' = Arr (map toPublicModel ms)"
  by (simp_all add: providerOutInternal_def providerOutPublic_def get_def props_def spreadIf_def)

lemma get_definitionsManifest:
  "get (definitionsManifest t ps n) ''providers'' = Arr ps"
  "get (definitionsManifest t ps n) ''total_providers'' = num (length ps)"
  "get (definitionsManifest t ps n) ''total_models'' = num n"
  by (simp_all add: definitionsManifest_def get_def props_def)

lemma processProvider_step:
  "\<exists>meta logo ms. processProvider h r (pis, pps, n) i =
     (pis @ [providerOutInternal meta logo ms], pps @ [providerOutPublic meta logo ms],
      n + length ms)"
  by (simp add: processProvider_def Let_def) blast

lemma foldl_processProvider_rel:
  assumes R: "\<And>meta logo ms. R (providerOutInternal meta logo ms) (providerOutPublic meta logo ms)"
  shows "list_all2 R pis pps \<Longrightarrow>
    n = sum_list (map (\<lambda>p. length (elems (get p ''models''))) pis) \<Longrightarrow>
    list_all2 R (fst (foldl (processProvider h r) (pis, pps, n) ids))
                (fst (snd (foldl (processProvider h r) (pis, pps, n) ids)))
    \<and> snd (snd (foldl (processProvider h r) (pis, pps, n) ids))
        = sum_list (map (\<lambda>p. length (elems (get p ''models'')))
            (fst (foldl (processProvider h r) (pis, pps, n) ids)))"
proof (induction ids arbitrary: pis pps n)
  case Nil
  then show ?case by simp
next
  case (Cons i ids)
  obtain meta logo ms where step: "processProvider h r (pis, pps, n) i =
     (pis @ [providerOutInternal meta logo ms], pps @ [providerOutPublic meta logo ms],
      n + length ms)"
    using processProvider_step by blast
  have rel: "list_all2 R (pis @ [providerOutInternal meta logo ms])
                         (pps @ [providerOutPublic meta logo ms])"
    using Cons.prems(1) R by (simp add: list_all2_appendI)
  have cnt: "n + length ms = sum_list (map (\<lambda>p. length (elems (get p ''models'')))
                (pis @ [providerOutInternal meta logo ms]))"
    using Cons.prems(2) by (simp add: get_providerOut elems_def)
  from Cons.IH [OF rel cnt] step show ?case by simp
qed

lemma buildDefinitions_rel:
  assumes R: "\<And>meta logo ms. R (providerOutInternal meta logo ms) (providerOutPublic meta logo ms)"
  shows "list_all2 R (fst (buildDefinitions h r)) (fst (snd (buildDefinitions h r)))
       \<and> snd (snd (buildDefinitions h r))
           = sum_list (map (\<lambda>p. length (elems (get p ''models''))) (fst (buildDefinitions h r)))"
  unfolding buildDefinitions_def
  by (rule foldl_processProvider_rel [where R = R]) (simp_all add: R)

text \<open>
  Claim C7. In the four manifests every group's \<open>skill_count\<close> (\<open>model_count\<close>) is the
  length of its array of units, \<open>total_skills\<close> (\<open>total_models\<close>) is the sum of these
  counts over the groups (providers) of the finished manifest, and \<open>total_providers\<close> is
  the number of providers.
\<close>

theorem aggregate_counts:
  "(\<forall>m \<in> {skillsPublicManifest h r t, skillsInternalManifest h r t}.
      (\<forall>g \<in> set (elems (get m ''groups'')).
          get g ''skill_count'' = num (length (elems (get g ''skills''))))
      \<and> get m ''total_skills'' = sumField ''skill_count'' (elems (get m ''groups''))
      \<and> get m ''total_skills''
          = num (sum_list (map (\<lambda>g. length (elems (get g ''skills''))) (elems (get m ''groups'')))))
   \<and> (\<forall>m \<in> {definitionsPublicManifest h r t, definitionsInternalManifest h r t}.
      (\<forall>p \<in> set (elems (get m ''providers'')).
          get p ''model_count'' = num (length (elems (get p ''models''))))
      \<and> get m ''total_providers'' = num (length (elems (get m ''providers'')))
      \<and> get m ''total_models'' = sumField ''model_count'' (elems (get m ''providers''))
      \<and> get m ''total_models''
          = num (sum_list (map (\<lambda>p. length (elems (get p ''models'')))
                   (elems (get m ''providers'')))))"
proof -
  let ?cnt = "\<lambda>g. get g ''skill_count'' = num (length (elems (get g ''skills'')))"
  have sk: "(\<forall>g \<in> set (fst (snd (buildSkills h r))). ?cnt g)
          \<and> (\<forall>g \<in> set (snd (snd (buildSkills h r))). ?cnt g)"
    by (rule buildSkills_groups_all) (simp add: get_groupOut elems_def)
  have skills: "\<forall>m \<in> {skillsPublicManifest h r t, skillsInternalManifest h r t}.
      (\<forall>g \<in> set (elems (get m ''groups'')). ?cnt g)
      \<and> get m ''total_skills'' = sumField ''skill_count'' (elems (get m ''groups''))
      \<and> get m ''total_skills''
          = num (sum_list (map (\<lambda>g. length (elems (get g ''skills''))) (elems (get m ''groups''))))"
    using sk
    by (simp add: skillsPublicManifest_def skillsInternalManifest_def get_skillsManifest elems_def
          sumField_counts [where f = "\<lambda>g. length (case get g ''skills'' of Arr xs \<Rightarrow> xs | _ \<Rightarrow> [])"])
  let ?mc = "\<lambda>p. get p ''model_count'' = num (length (elems (get p ''models'')))"
  let ?len = "\<lambda>p. length (elems (get p ''models''))"
  obtain pis pps n where B: "buildDefinitions h r = (pis, pps, n)"
    by (cases "buildDefinitions h r") auto
  from buildDefinitions_rel [of "\<lambda>x y. ?mc x \<and> ?mc y \<and> ?len x = ?len y
                                    \<and> get x ''name'' = get y ''name''" h r] B
  have rel: "list_all2 (\<lambda>x y. ?mc x \<and> ?mc y \<and> ?len x = ?len y
                            \<and> get x ''name'' = get y ''name'') pis pps"
    and n: "n = sum_list (map ?len pis)"
    by (simp_all add: get_providerOut elems_def)
  from rel have all_i: "\<forall>p \<in> set pis. ?mc p" and all_p: "\<forall>p \<in> set pps. ?mc p"
    by (auto simp: list_all2_conv_all_nth in_set_conv_nth)
  from rel have "map ?len pis = map ?len pps"
    by (induction pis pps rule: list_all2_induct) auto
  with n have n': "n = sum_list (map ?len pps)" by simp
  have si: "set (sortByName h pis) = set pis" and sp: "set (sortByName h pps) = set pps"
    by (simp_all add: sortByName_def set_sortBy)
  have li: "sum_list (map ?len (sortByName h pis)) = n"
    and lp: "sum_list (map ?len (sortByName h pps)) = n"
    using n n' by (simp_all add: sortByName_def sum_list_sortBy)
  have defs: "\<forall>m \<in> {definitionsPublicManifest h r t, definitionsInternalManifest h r t}.
      (\<forall>p \<in> set (elems (get m ''providers'')). ?mc p)
      \<and> get m ''total_providers'' = num (length (elems (get m ''providers'')))
      \<and> get m ''total_models'' = sumField ''model_count'' (elems (get m ''providers''))
      \<and> get m ''total_models'' = num (sum_list (map ?len (elems (get m ''providers''))))"
    using all_i all_p si sp li lp B
      sumField_counts [of "sortByName h pis" "''model_count''" ?len]
      sumField_counts [of "sortByName h pps" "''model_count''" ?len]
    by (simp add: definitionsPublicManifest_def definitionsInternalManifest_def
          get_definitionsManifest elems_def)
  from skills defs show ?thesis by blast
qed

subsection \<open>The sample run\<close>

lemmas sample_eval =
  buildSkills_def
  processGroup_def processSkill_def listGroups_def listSkillDirs_def parseSkillFrontmatter_def
  sortAlphaCaseInsensitive_def sortBy_def sortByName_def readdir_def direntIsDirectory_def
  child_def pathExists_def isDirectory_def initialState_def groupOut_def skillPublic_def
  skillInternal_def detectSkillContents_def countIncludedFiles_def downloadUrl_def
  slugifyGroupName_def stripDashes_def trim_def isWhiteSpace_def isLowerOrDigit_def isUpper_def
  escapes_def relative_def resolve_def downloadsDir_def publicDir_def segmentsOf_def
  isAbsolute_def shouldExcludePath_def basename_def endsWith_def excludedDirNames_def
  sampleHost_def sampleSkillsRoot_def asciiLower_def js_def get_def props_def
  strOf_def num_def truncate_def PUBLIC_DESC_MAX_CHARS_def Let_def

lemma sample_buildSkills:
  "buildSkills sampleHost sampleSkillsRoot =
     (\<lparr> seenSkillFolderNames = {js ''beta'', js ''alpha''},
        packagedCount = 2, errorCount = 1, totalZipBytes = 200,
        effects =
          [EnsureDirs,
           CreateZip (js ''/repo/website/public/skills/downloads/alpha.zip'') (js ''alpha''),
           Warn (MissingDescription (js ''dev-tools'') (js ''alpha'')),
           Warn (DuplicateFolder (js ''dev-tools'') (js ''alpha'')),
           Warn (MissingDescription (js ''dev-tools'') (js ''beta'')),
           CreateZip (js ''/repo/website/public/skills/downloads/beta.zip'') (js ''beta'')] \<rparr>,
      [groupOut (js ''Dev Tools'') (js ''dev-tools'')
         [skillPublic (js ''Alpha'') (js ''first'') (js ''dev-tools'') (js ''alpha'') 100 2
            (Obj [(''has_scripts'', Bool True), (''has_references'', Bool False),
                  (''has_license'', Bool False)])],
       groupOut (js ''dev-tools'') (js ''dev-tools'')
         [skillPublic (js ''beta'') [] (js ''dev-tools'') (js ''beta'') 100 2
            (Obj [(''has_scripts'', Bool False), (''has_references'', Bool False),
                  (''has_license'', Bool True)])]],
      [groupOut (js ''Dev Tools'') (js ''dev-tools'')
         [skillInternal (js ''Alpha'') (js ''first'') (js ''dev-tools'') (js ''alpha'') 100 2
            (Obj [(''has_scripts'', Bool True), (''has_references'', Bool False),
                  (''has_license'', Bool False)])],
       groupOut (js ''dev-tools'') (js ''dev-tools'')
         [skillInternal (js ''beta'') [] (js ''dev-tools'') (js ''beta'') 100 2
            (Obj [(''has_scripts'', Bool False), (''has_references'', Bool False),
                  (''has_license'', Bool True)])]])"
  by (simp add: sample_eval)

subsection \<open>Slugs\<close>

text \<open>
  Claim C9 as stated fails: two directories under the skills root whose names differ only
  in a separator and in case are distinct groups of the manifest with one slug.
\<close>

theorem distinct_groups_share_slug:
  "get (elems (get (skillsPublicManifest sampleHost sampleSkillsRoot sampleTime) ''groups'') ! 0)
      ''name'' = Str (js ''Dev Tools'')
   \<and> get (elems (get (skillsPublicManifest sampleHost sampleSkillsRoot sampleTime) ''groups'') ! 1)
      ''name'' = Str (js ''dev-tools'')
   \<and> get (elems (get (skillsPublicManifest sampleHost sampleSkillsRoot sampleTime) ''groups'') ! 0)
      ''slug'' = Str (js ''dev-tools'')
   \<and> get (elems (get (skillsPublicManifest sampleHost sampleSkillsRoot sampleTime) ''groups'') ! 1)
      ''slug'' = Str (js ''dev-tools'')
   \<and> asciiLower (js ''Dev Tools'') \<noteq> asciiLower (js ''dev-tools'')"
  by (simp add: skillsPublicManifest_def sample_buildSkills get_skillsManifest elems_def
        get_groupOut) (simp add: js_def asciiLower_def)

text \<open>
  Claim C9, amended. The slug of every group of either skills manifest is
  \<open>slugifyGroupName\<close> of that group's name, a function of the name alone, so the same
  name always gives the same slug; distinct names may share a slug.
\<close>

theorem slug_is_function_of_name:
  "\<forall>m \<in> {skillsPublicManifest h r t, skillsInternalManifest h r t}.
     \<forall>g \<in> set (elems (get m ''groups'')).
       get g ''slug'' = Str (slugifyGroupName h (strOf (get g ''name'')))"
proof -
  have "(\<forall>g \<in> set (fst (snd (buildSkills h r))).
           get g ''slug'' = Str (slugifyGroupName h (strOf (get g ''name''))))
      \<and> (\<forall>g \<in> set (snd (snd (buildSkills h r))).
           get g ''slug'' = Str (slugifyGroupName h (strOf (get g ''name''))))"
    by (rule buildSkills_groups_all) (simp add: get_groupOut strOf_def)
  then show ?thesis
    by (simp add: skillsPublicManifest_def skillsInternalManifest_def get_skillsManifest elems_def)
qed

theorem slug_is_function_of_name_witness:
  "elems (get (skillsInternalManifest sampleHost sampleSkillsRoot sampleTime) ''groups'') ! 1
     \<in> set (elems (get (skillsInternalManifest sampleHost sampleSkillsRoot sampleTime) ''groups''))
   \<and> get (elems (get (skillsInternalManifest sampleHost sampleSkillsRoot sampleTime) ''groups'') ! 1)
        ''slug''
      = Str (slugifyGroupName sampleHost (js ''dev-tools''))
   \<and> slugifyGroupName sampleHost (js ''dev-tools'') = js ''dev-tools''"
proof -
  let ?m = "skillsInternalManifest sampleHost sampleSkillsRoot sampleTime"
  have groups: "elems (get ?m ''groups'') =
      [groupOut (js ''Dev Tools'') (js ''dev-tools'')
         [skillInternal (js ''Alpha'') (js ''first'') (js ''dev-tools'') (js ''alpha'') 100 2
            (Obj [(''has_scripts'', Bool True), (''has_references'', Bool False),
                  (''has_license'', Bool False)])],
       groupOut (js ''dev-tools'') (js ''dev-tools'')
         [skillInternal (js ''beta'') [] (js ''dev-tools'') (js ''beta'') 100 2
            (Obj [(''has_scripts'', Bool False), (''has_references'', Bool False),
                  (''has_license'', Bool True)])]]"
    by (simp add: skillsInternalManifest_def sample_buildSkills get_skillsManifest elems_def)
  have m: "?m \<in> {skillsPublicManifest sampleHost sampleSkillsRoot sampleTime, ?m}" by simp
  have g: "elems (get ?m ''groups'') ! 1 \<in> set (elems (get ?m ''groups''))"
    by (simp add: groups)
  from slug_is_function_of_name [of sampleHost sampleSkillsRoot sampleTime, rule_format, OF m g]
  have "get (elems (get ?m ''groups'') ! 1) ''slug''
          = Str (slugifyGroupName sampleHost (js ''dev-tools''))"
    by (simp add: groups get_groupOut strOf_def)
  moreover have "slugifyGroupName sampleHost (js ''dev-tools'') = js ''dev-tools''"
    by (simp add: slugifyGroupName_def sampleHost_def js_def asciiLower_def trim_def
          isWhiteSpace_def stripDashes_def isLowerOrDigit_def isUpper_def)
  ultimately show ?thesis using g by simp
qed

lemma sample_buildDefinitions:
  "buildDefinitions sampleHost sampleProvidersRoot =
     ([providerOutInternal (normalizeProviderToml (js ''acme'') (Obj [(''name'', Str (js ''One''))]))
         False [normalizeModelToml sampleHost (js ''acme'') (js ''m'') (Obj [(''name'', Str (js ''One''))])]],
      [providerOutPublic (normalizeProviderToml (js ''acme'') (Obj [(''name'', Str (js ''One''))]))
         False [normalizeModelToml sampleHost (js ''acme'') (js ''m'') (Obj [(''name'', Str (js ''One''))])]],
      1)"
proof -
  have ids: "listProviderDirs sampleHost sampleProvidersRoot = [js ''acme'']"
    by (simp add: listProviderDirs_def sampleProvidersRoot_def readdir_def direntIsDirectory_def
          sortAlphaCaseInsensitive_def sortBy_def shouldExcludePath_def basename_def endsWith_def
          excludedDirNames_def sampleHost_def asciiLower_def js_def Let_def)
  have files: "listModelTomlFiles sampleHost (Dir [(js ''m.toml'', File (js ''1''))])
                 = [(js ''m.toml'', File (js ''1''))]"
    by (simp add: listModelTomlFiles_def readdir_def direntIsDirectory_def
          sortBy_def shouldExcludePath_def basename_def endsWith_def
          excludedDirNames_def sampleHost_def asciiLower_def js_def Let_def)
  have toml: "readTomlFile sampleHost (Some (File (js ''1''))) = Obj [(''name'', Str (js ''One''))]"
    by (simp add: readTomlFile_def sampleHost_def)
  have model: "modelOfFile sampleHost (js ''acme'') (js ''m.toml'', File (js ''1''))
      = [normalizeModelToml sampleHost (js ''acme'') (js ''m'') (Obj [(''name'', Str (js ''One''))])]"
    by (simp add: modelOfFile_def toml truthy_def joinSlash_splitSlash)
       (simp add: stripTomlSuffix_def endsWith_def asciiLower_def js_def)
  have kids: "child (Some sampleProvidersRoot) (js ''acme'') =
      Some (Dir [(js ''provider.toml'', File (js ''1'')),
                 (js ''models'', Dir [(js ''m.toml'', File (js ''1''))])])"
    by (simp add: child_def sampleProvidersRoot_def js_def)
  have k1: "child (Some (Dir [(js ''provider.toml'', File (js ''1'')),
                 (js ''models'', Dir [(js ''m.toml'', File (js ''1''))])])) (js ''provider.toml'')
             = Some (File (js ''1''))"
    and k2: "child (Some (Dir [(js ''provider.toml'', File (js ''1'')),
                 (js ''models'', Dir [(js ''m.toml'', File (js ''1''))])])) (js ''models'')
             = Some (Dir [(js ''m.toml'', File (js ''1''))])"
    and k3: "child (Some (Dir [(js ''provider.toml'', File (js ''1'')),
                 (js ''models'', Dir [(js ''m.toml'', File (js ''1''))])])) (js ''logo.svg'')
             = None"
    by (simp_all add: child_def js_def)
  show ?thesis
    by (simp add: buildDefinitions_def ids processProvider_def kids k1 k2 k3 pathExists_def toml
          files model orElse_def truthy_def sortByName_def sortBy_def Let_def)
qed

lemma elems_Arr: "elems (Arr xs) = xs"
  by (simp add: elems_def)

theorem aggregate_counts_witness:
  "elems (get (skillsPublicManifest sampleHost sampleSkillsRoot sampleTime) ''groups'') ! 0
     \<in> set (elems (get (skillsPublicManifest sampleHost sampleSkillsRoot sampleTime) ''groups''))
   \<and> get (elems (get (skillsPublicManifest sampleHost sampleSkillsRoot sampleTime) ''groups'') ! 0)
        ''skill_count'' = num 1
   \<and> get (skillsPublicManifest sampleHost sampleSkillsRoot sampleTime) ''total_skills'' = num 2
   \<and> get (definitionsInternalManifest sampleHost sampleProvidersRoot sampleTime) ''total_providers''
        = num 1
   \<and> get (definitionsInternalManifest sampleHost sampleProvidersRoot sampleTime) ''total_models''
        = num 1"
proof -
  let ?m = "skillsPublicManifest sampleHost sampleSkillsRoot sampleTime"
  let ?d = "definitionsInternalManifest sampleHost sampleProvidersRoot sampleTime"
  have groups: "elems (get ?m ''groups'') =
      [groupOut (js ''Dev Tools'') (js ''dev-tools'')
         [skillPublic (js ''Alpha'') (js ''first'') (js ''dev-tools'') (js ''alpha'') 100 2
            (Obj [(''has_scripts'', Bool True), (''has_references'', Bool False),
                  (''has_license'', Bool False)])],
       groupOut (js ''dev-tools'') (js ''dev-tools'')
         [skillPublic (js ''beta'') [] (js ''dev-tools'') (js ''beta'') 100 2
            (Obj [(''has_scripts'', Bool False), (''has_references'', Bool False),
                  (''has_license'', Bool True)])]]"
    by (simp add: skillsPublicManifest_def sample_buildSkills get_skillsManifest elems_def)
  have providers: "length (elems (get ?d ''providers'')) = 1
      \<and> map (\<lambda>p. length (elems (get p ''models''))) (elems (get ?d ''providers'')) = [1]"
    by (simp add: definitionsInternalManifest_def sample_buildDefinitions get_definitionsManifest
          elems_def sortByName_def sortBy_def get_providerOut)
  have m: "?m \<in> {?m, skillsInternalManifest sampleHost sampleSkillsRoot sampleTime}" by simp
  have d: "?d \<in> {definitionsPublicManifest sampleHost sampleProvidersRoot sampleTime, ?d}" by simp
  have g: "elems (get ?m ''groups'') ! 0 \<in> set (elems (get ?m ''groups''))"
    by (simp add: groups)
  note sk = aggregate_counts [of sampleHost sampleSkillsRoot sampleTime, THEN conjunct1,
      rule_format, OF m]
  note df = aggregate_counts [of sampleHost sampleProvidersRoot sampleTime, THEN conjunct2,
      rule_format, OF d]
  from sk [THEN conjunct1, rule_format, OF g]
  have c1: "get (elems (get ?m ''groups'') ! 0) ''skill_count'' = num 1"
    by (simp add: groups get_groupOut elems_Arr)
  from sk [THEN conjunct2, THEN conjunct2]
  have c2: "get ?m ''total_skills'' = num 2"
    by (simp add: groups get_groupOut elems_Arr numeral_2_eq_2)
  from df [THEN conjunct2, THEN conjunct1] providers
  have c3: "get ?d ''total_providers'' = num 1" by simp
  from df [THEN conjunct2, THEN conjunct2, THEN conjunct2] providers
  have c4: "get ?d ''total_models'' = num 1" by simp
  from g c1 c2 c3 c4 show ?thesis by blast
qed

subsection \<open>The public records within the internal ones\<close>

lemma jsonKeys_Obj: "jsonKeys (Obj ps) = map fst (filter (\<lambda>(k, x). x \<noteq> Undefined) ps)"
  by (simp add: jsonKeys_def props_def)

lemma get_defined_key:
  assumes "get v k \<noteq> Undefined"
  shows "k \<in> set (jsonKeys v)"
proof -
  from assms obtain x where x: "map_of (props v) k = Some x" "x \<noteq> Undefined"
    by (auto simp: get_def split: option.splits)
  then have "(k, x) \<in> set (props v)"
    by (simp add: map_of_SomeD)
  with x have "(k, x) \<in> set (filter (\<lambda>(k, x). x \<noteq> Undefined) (props v))"
    by simp
  then have "fst (k, x) \<in> set (jsonKeys v)"
    unfolding jsonKeys_def set_map by (rule imageI)
  then show ?thesis by simp
qed

lemma truthy_defined: "truthy v \<Longrightarrow> v \<noteq> Undefined"
  by (cases v) (simp_all add: truthy_def)

lemma isPlainObject_defined: "isPlainObject v \<Longrightarrow> v \<noteq> Undefined"
  by (cases v) (simp_all add: isPlainObject_def)

lemma asNumber_defined: "asNumber v \<noteq> Undefined \<Longrightarrow> v \<noteq> Undefined"
  by (cases v) (simp_all add: asNumber_def)

lemma publicCost_defined: "truthy (publicCost v) \<Longrightarrow> get v ''cost'' \<noteq> Undefined"
  by (cases "isPlainObject (get v ''cost'')")
     (simp_all add: publicCost_def truthy_def isPlainObject_defined)

lemma jsonKeys_Undefined: "jsonKeys Undefined = []"
  by (simp add: jsonKeys_def props_def)

lemma jsonKeys_subsetI:
  "(\<forall>p \<in> set ps. snd p \<noteq> Undefined \<longrightarrow> fst p \<in> S) \<Longrightarrow> set (jsonKeys (Obj ps)) \<subseteq> S"
  by (auto simp: jsonKeys_Obj)

lemma ball_spreadIf: "(\<forall>p \<in> set (spreadIf c k x). Q p) = (c \<longrightarrow> Q (k, x))"
  by (simp add: spreadIf_def)

lemma jsonKeys_publicCost: "set (jsonKeys (publicCost v)) \<subseteq> set (jsonKeys (get v ''cost''))"
proof -
  let ?c = "get v ''cost''"
  have i: "asNumber (get ?c ''input'') \<noteq> Undefined \<Longrightarrow> ''input'' \<in> set (jsonKeys ?c)"
    by (rule get_defined_key) (rule asNumber_defined)
  have out: "asNumber (get ?c ''output'') \<noteq> Undefined \<Longrightarrow> ''output'' \<in> set (jsonKeys ?c)"
    by (rule get_defined_key) (rule asNumber_defined)
  have "set (jsonKeys (Obj (spreadIf (asNumber (get ?c ''input'') \<noteq> Undefined) ''input''
                              (asNumber (get ?c ''input''))
                            @ spreadIf (asNumber (get ?c ''output'') \<noteq> Undefined) ''output''
                              (asNumber (get ?c ''output''))))) \<subseteq> set (jsonKeys ?c)"
    by (rule jsonKeys_subsetI) (simp add: ball_Un ball_spreadIf i out)
  then show ?thesis
    by (simp add: publicCost_def Let_def jsonKeys_Undefined)
qed

lemma get_toPublicModel:
  "get (toPublicModel v) ''id'' = get v ''id''"
  "get (toPublicModel v) ''name'' = get v ''name''"
  "get (toPublicModel v) ''cost'' = (if truthy (publicCost v) then publicCost v else Undefined)"
  by (simp_all add: toPublicModel_def get_def props_def spreadIf_def)

lemma jsonKeys_toPublicModel: "set (jsonKeys (toPublicModel v)) \<subseteq> set (jsonKeys v)"
  unfolding toPublicModel_def
  by (rule jsonKeys_subsetI)
     (simp add: ball_Un ball_spreadIf get_defined_key truthy_defined publicCost_defined)

lemma get_providerOutInternal:
  "get (providerOutInternal meta logo ms) ''npm'' = get meta ''npm''"
  "get (providerOutInternal meta logo ms) ''doc'' = get meta ''doc''"
  "get (providerOutInternal meta logo ms) ''api''
     = (if truthy (get meta ''api'') then get meta ''api'' else Undefined)"
  "get (providerOutInternal meta logo ms) ''has_logo'' = Bool logo"
  by (simp_all add: providerOutInternal_def get_def props_def spreadIf_def)

lemma jsonKeys_providerOut:
  "set (jsonKeys (providerOutPublic meta logo ms))
     \<subseteq> set (jsonKeys (providerOutInternal meta logo ms))"
proof -
  have key: "\<And>k. get (providerOutInternal meta logo ms) k \<noteq> Undefined
      \<Longrightarrow> k \<in> set (jsonKeys (providerOutInternal meta logo ms))"
    by (rule get_defined_key)
  show ?thesis
    unfolding providerOutPublic_def
    by (rule jsonKeys_subsetI)
       (simp add: ball_Un ball_spreadIf key get_providerOut get_providerOutInternal num_def)
qed

lemma jsonKeys_skill:
  "set (jsonKeys (skillPublic name desc slug f z c k))
     \<subseteq> set (jsonKeys (skillInternal name desc slug f z c k))"
  by (simp add: skillPublic_def skillInternal_def jsonKeys_Obj num_def)

lemma get_skill:
  "get (skillPublic name desc slug f z c k) ''name'' = Str name"
  "get (skillInternal name desc slug f z c k) ''name'' = Str name"
  "get (skillPublic name desc slug f z c k) ''download_url'' = Str (downloadUrl f)"
  "get (skillInternal name desc slug f z c k) ''download_url'' = Str (downloadUrl f)"
  by (simp_all add: skillPublic_def skillInternal_def get_def props_def)

lemma jsonKeys_groupOut: "jsonKeys (groupOut n s skills) = [''name'', ''slug'', ''skill_count'', ''skills'']"
  by (simp add: groupOut_def jsonKeys_Obj num_def)

lemma jsonKeys_skillsManifest:
  "jsonKeys (skillsManifest t gs) =
     [''version'', ''generated_at'', ''base_url'', ''total_skills'', ''groups'']"
  by (simp add: skillsManifest_def jsonKeys_Obj sumField_def)

lemma jsonKeys_definitionsManifest:
  "jsonKeys (definitionsManifest t ps n) =
     [''version'', ''generated_at'', ''base_url'', ''total_providers'', ''total_models'',
      ''providers'']"
  by (simp add: definitionsManifest_def jsonKeys_Obj num_def)

lemma list_all2_swap: "list_all2 (\<lambda>x y. P y x) xs ys \<Longrightarrow> list_all2 P ys xs"
  by (induction xs ys rule: list_all2_induct) auto

lemma list_all2_map_same: "(\<And>x. P (f x) x) \<Longrightarrow> list_all2 P (map f xs) xs"
  by (induction xs) auto

text \<open>
  Claim C5. In both pipelines the emitted keys of the public manifest root are among those
  of the internal root; the groups (providers) of the two manifests correspond one to one,
  with the same name (id), and so do their units, with the same download reference (id);
  and at each of these levels, and for a model's \<open>cost\<close>, every key emitted in the public
  record is emitted in the corresponding internal record.
\<close>

theorem public_fields_within_internal:
  "set (jsonKeys (skillsPublicManifest h r t)) \<subseteq> set (jsonKeys (skillsInternalManifest h r t))
   \<and> list_all2
        (\<lambda>p i. set (jsonKeys p) \<subseteq> set (jsonKeys i) \<and> get p ''name'' = get i ''name''
           \<and> list_all2
                (\<lambda>u v. set (jsonKeys u) \<subseteq> set (jsonKeys v)
                   \<and> get u ''download_url'' = get v ''download_url''
                   \<and> get u ''name'' = get v ''name'')
                (elems (get p ''skills'')) (elems (get i ''skills'')))
        (elems (get (skillsPublicManifest h r t) ''groups''))
        (elems (get (skillsInternalManifest h r t) ''groups''))
   \<and> set (jsonKeys (definitionsPublicManifest h r t))
        \<subseteq> set (jsonKeys (definitionsInternalManifest h r t))
   \<and> list_all2
        (\<lambda>p i. set (jsonKeys p) \<subseteq> set (jsonKeys i) \<and> get p ''id'' = get i ''id''
           \<and> get p ''name'' = get i ''name''
           \<and> list_all2
                (\<lambda>u v. set (jsonKeys u) \<subseteq> set (jsonKeys v) \<and> get u ''id'' = get v ''id''
                   \<and> set (jsonKeys (get u ''cost'')) \<subseteq> set (jsonKeys (get v ''cost'')))
                (elems (get p ''models'')) (elems (get i ''models'')))
        (elems (get (definitionsPublicManifest h r t) ''providers''))
        (elems (get (definitionsInternalManifest h r t) ''providers''))"
proof -
  let ?Q = "\<lambda>u v. set (jsonKeys u) \<subseteq> set (jsonKeys v)
                   \<and> get u ''download_url'' = get v ''download_url''
                   \<and> get u ''name'' = get v ''name''"
  let ?R = "\<lambda>p i. set (jsonKeys p) \<subseteq> set (jsonKeys i) \<and> get p ''name'' = get i ''name''
           \<and> list_all2 ?Q (elems (get p ''skills'')) (elems (get i ''skills''))"
  have sk: "list_all2 ?R (fst (snd (buildSkills h r))) (snd (snd (buildSkills h r)))"
    by (rule buildSkills_rel [where Q = ?Q])
       (simp_all add: get_groupOut jsonKeys_groupOut elems_Arr jsonKeys_skill get_skill)
  let ?Q' = "\<lambda>u v. set (jsonKeys u) \<subseteq> set (jsonKeys v) \<and> get u ''id'' = get v ''id''
                   \<and> set (jsonKeys (get u ''cost'')) \<subseteq> set (jsonKeys (get v ''cost''))"
  let ?R' = "\<lambda>p i. set (jsonKeys p) \<subseteq> set (jsonKeys i) \<and> get p ''id'' = get i ''id''
           \<and> get p ''name'' = get i ''name''
           \<and> list_all2 ?Q' (elems (get p ''models'')) (elems (get i ''models''))"
  have model: "\<And>x. ?Q' (toPublicModel x) x"
    by (simp add: jsonKeys_toPublicModel get_toPublicModel jsonKeys_publicCost jsonKeys_Undefined)
  have prov: "\<And>meta logo ms. ?R' (providerOutPublic meta logo ms) (providerOutInternal meta logo ms)"
    using list_all2_map_same [of ?Q' toPublicModel, OF model]
    by (simp add: jsonKeys_providerOut get_providerOut elems_Arr)
  obtain pis pps n where B: "buildDefinitions h r = (pis, pps, n)"
    by (cases "buildDefinitions h r") auto
  from buildDefinitions_rel [of "\<lambda>i p. ?R' p i" h r, OF prov] B
  have "list_all2 (\<lambda>i p. ?R' p i) pis pps" by simp
  then have "list_all2 (\<lambda>i p. ?R' p i) (sortByName h pis) (sortByName h pps)"
    by (rule sortByName_rel [rotated]) simp
  then have df: "list_all2 ?R' (sortByName h pps) (sortByName h pis)"
    by (rule list_all2_swap)
  show ?thesis
    using sk df B
    by (simp add: skillsPublicManifest_def skillsInternalManifest_def get_skillsManifest
          jsonKeys_skillsManifest definitionsPublicManifest_def definitionsInternalManifest_def
          get_definitionsManifest jsonKeys_definitionsManifest elems_Arr)
qed

subsection \<open>Rejected units\<close>

lemma foldl_processSkill_inv:
  assumes step: "\<And>st P I s. Inv st \<Longrightarrow> Inv (fst (processSkill h g slug (st, P, I) s))"
  shows "Inv st \<Longrightarrow> Inv (fst (foldl (processSkill h g slug) (st, P, I) ss))"
proof (induction ss arbitrary: st P I)
  case Nil
  then show ?case by simp
next
  case (Cons s ss)
  obtain st' P' I' where eq: "processSkill h g slug (st, P, I) s = (st', P', I')"
    by (cases "processSkill h g slug (st, P, I) s") auto
  with step [OF Cons.prems, of P I s] have "Inv st'" by simp
  from Cons.IH [OF this, of P' I'] eq show ?case by simp
qed

lemma processGroup_inv:
  assumes step: "\<And>g slug st P I s. Inv st \<Longrightarrow> Inv (fst (processSkill h g slug (st, P, I) s))"
  shows "Inv st \<Longrightarrow> Inv (fst (processGroup h r (st, gp, gi) n))"
  using foldl_processSkill_inv [where Inv = Inv and h = h and g = n
      and slug = "slugifyGroupName h n" and st = st and P = "[]" and I = "[]"
      and ss = "listSkillDirs h (child (Some r) n)"] step
  by (auto simp: processGroup_def Let_def split: prod.splits)

lemma foldl_processGroup_inv:
  assumes step: "\<And>g slug st P I s. Inv st \<Longrightarrow> Inv (fst (processSkill h g slug (st, P, I) s))"
  shows "Inv st \<Longrightarrow> Inv (fst (foldl (processGroup h r) (st, gp, gi) ns))"
proof (induction ns arbitrary: st gp gi)
  case Nil
  then show ?case by simp
next
  case (Cons n ns)
  obtain st' gp' gi' where eq: "processGroup h r (st, gp, gi) n = (st', gp', gi')"
    by (cases "processGroup h r (st, gp, gi) n") auto
  with processGroup_inv [where Inv = Inv, OF step Cons.prems, of r gp gi n] have "Inv st'" by simp
  from Cons.IH [OF this, of gp' gi'] eq show ?case by simp
qed

lemma processSkill_duplicate:
  "fst s \<in> seenSkillFolderNames st \<Longrightarrow>
   processSkill h g slug (st, P, I) s =
     (st\<lparr>effects := effects st
            @ map Warn (snd (snd (parseSkillFrontmatter h g
                                   (child (Some (snd s)) (js ''SKILL.md'')) (fst s))))
            @ [Warn (DuplicateFolder g (fst s))],
         errorCount := errorCount st + 1\<rparr>, P, I)"
  by (simp add: processSkill_def Let_def split: prod.splits)

lemma processSkill_escaping:
  "fst s \<notin> seenSkillFolderNames st \<Longrightarrow>
   escapes h (downloadsDir h) (resolve h [downloadsDir h, fst s @ js ''.zip'']) \<Longrightarrow>
   processSkill h g slug (st, P, I) s =
     (st\<lparr>seenSkillFolderNames := insert (fst s) (seenSkillFolderNames st),
         effects := effects st
            @ map Warn (snd (snd (parseSkillFrontmatter h g
                                   (child (Some (snd s)) (js ''SKILL.md'')) (fst s))))
            @ [Warn (OutsideDownloads g (fst s) (resolve h [downloadsDir h, fst s @ js ''.zip'']))],
         errorCount := errorCount st + 1\<rparr>, P, I)"
  by (simp add: processSkill_def Let_def split: prod.splits)

lemma processSkill_effects:
  "\<exists>ws ws'. effects (fst (processSkill h g slug (st, P, I) s)) = effects st @ map Warn ws
     \<or> (fst s \<notin> seenSkillFolderNames st
        \<and> \<not> escapes h (downloadsDir h) (resolve h [downloadsDir h, fst s @ js ''.zip''])
        \<and> effects (fst (processSkill h g slug (st, P, I) s))
            = effects st @ map Warn ws
              @ [CreateZip (resolve h [downloadsDir h, fst s @ js ''.zip'']) (fst s)]
              @ map Warn ws')"
proof (cases "fst s \<in> seenSkillFolderNames st")
  case True
  show ?thesis
    by (rule exI [of _ "snd (snd (parseSkillFrontmatter h g
            (child (Some (snd s)) (js ''SKILL.md'')) (fst s))) @ [DuplicateFolder g (fst s)]"])
       (simp add: processSkill_duplicate [OF True])
next
  case False
  show ?thesis
  proof (cases "escapes h (downloadsDir h) (resolve h [downloadsDir h, fst s @ js ''.zip''])")
    case True
    show ?thesis
      by (rule exI [of _ "snd (snd (parseSkillFrontmatter h g
            (child (Some (snd s)) (js ''SKILL.md'')) (fst s)))
            @ [OutsideDownloads g (fst s) (resolve h [downloadsDir h, fst s @ js ''.zip''])]"])
         (simp add: processSkill_escaping [OF False True])
  next
    case esc: False
    show ?thesis
    proof (cases "archive h (fst s) (snd s) (resolve h [downloadsDir h, fst s @ js ''.zip''])")
      case None
      show ?thesis
        apply (rule exI [of _ "snd (snd (parseSkillFrontmatter h g
            (child (Some (snd s)) (js ''SKILL.md'')) (fst s)))"])
        apply (rule exI [of _ "[PackagingFailed (fst (parseSkillFrontmatter h g
            (child (Some (snd s)) (js ''SKILL.md'')) (fst s)))
            (resolve h [downloadsDir h, fst s @ js ''.zip''])]"])
        using False esc None
        apply (simp add: processSkill_def Let_def split: prod.splits)
        done
    next
      case (Some bytes)
      show ?thesis
        apply (rule exI [of _ "snd (snd (parseSkillFrontmatter h g
            (child (Some (snd s)) (js ''SKILL.md'')) (fst s)))"])
        apply (rule exI [of _ "[]"])
        using False esc Some
        apply (simp add: processSkill_def Let_def split: prod.splits)
        done
    qed
  qed
qed

lemma processSkill_seen:
  "seenSkillFolderNames (fst (processSkill h g slug (st, P, I) s))
     = insert (fst s) (seenSkillFolderNames st)"
  by (auto simp: processSkill_def Let_def split: prod.splits option.splits)

lemma archivedFolders_append:
  "archivedFolders (xs @ ys) = archivedFolders xs @ archivedFolders ys"
  by (simp add: archivedFolders_def)

lemma archivedFolders_Warn: "archivedFolders (map Warn ws) = []"
  by (induction ws) (simp_all add: archivedFolders_def)

lemma skillsMain_trace:
  "trace (skillsMain h rootDir t) = [EnsureDirs]
   \<or> (\<exists>es. rootDir = Some (Dir es)
        \<and> trace (skillsMain h rootDir t) = effects (fst (buildSkills h (Dir es)))
            @ [WriteJson PublicManifest (skillsPublicManifest h (Dir es) t),
               WriteJson InternalCatalog (skillsInternalManifest h (Dir es) t),
               WriteJson Schema Undefined])"
  by (auto simp: skillsMain_def split: option.splits node.splits)

lemma escaping_step:
  assumes esc: "escapes h (downloadsDir h) (resolve h [downloadsDir h, fst s @ js ''.zip''])"
  shows "\<exists>ws. processSkill h g slug (st, P, I) s =
         (st\<lparr>seenSkillFolderNames := insert (fst s) (seenSkillFolderNames st),
             effects := effects st @ map Warn ws,
             errorCount := errorCount st + 1\<rparr>, P, I)"
proof (cases "fst s \<in> seenSkillFolderNames st")
  let ?ws = "snd (snd (parseSkillFrontmatter h g (child (Some (snd s)) (js ''SKILL.md'')) (fst s)))"
  case True
  show ?thesis
    by (rule exI [of _ "?ws @ [DuplicateFolder g (fst s)]"])
       (simp add: processSkill_duplicate [OF True] insert_absorb [OF True])
next
  let ?ws = "snd (snd (parseSkillFrontmatter h g (child (Some (snd s)) (js ''SKILL.md'')) (fst s)))"
  case False
  show ?thesis
    by (rule exI [of _ "?ws @ [OutsideDownloads g (fst s)
                                (resolve h [downloadsDir h, fst s @ js ''.zip''])]"])
       (simp add: processSkill_escaping [OF False esc])
qed

text \<open>
  Claim C1. When the destination \<open>downloadsDir/<folder>.zip\<close> of a skill escapes the
  downloads directory, the step of the loop for that skill adds nothing but warnings to the
  effects (no archive is created), leaves both lists of records as they were and raises the
  error counter by one. In a whole run, every archive that is created lies at the resolved
  destination of its folder name, and that destination does not escape.
\<close>

theorem escaping_destination_rejected:
  "(escapes h (downloadsDir h) (resolve h [downloadsDir h, fst s @ js ''.zip'']) \<longrightarrow>
      (\<exists>ws. processSkill h g slug (st, P, I) s =
         (st\<lparr>seenSkillFolderNames := insert (fst s) (seenSkillFolderNames st),
             effects := effects st @ map Warn ws,
             errorCount := errorCount st + 1\<rparr>, P, I)))
   \<and> (\<forall>out folder. CreateZip out folder \<in> set (trace (skillsMain h rootDir t)) \<longrightarrow>
         out = resolve h [downloadsDir h, folder @ js ''.zip'']
         \<and> \<not> escapes h (downloadsDir h) out)"
proof (rule conjI)
  show "escapes h (downloadsDir h) (resolve h [downloadsDir h, fst s @ js ''.zip'']) \<longrightarrow>
      (\<exists>ws. processSkill h g slug (st, P, I) s =
         (st\<lparr>seenSkillFolderNames := insert (fst s) (seenSkillFolderNames st),
             effects := effects st @ map Warn ws,
             errorCount := errorCount st + 1\<rparr>, P, I))"
    using escaping_step [of h s g slug st P I] by blast
next
  let ?Inv = "\<lambda>st :: skills_state. \<forall>out folder. CreateZip out folder \<in> set (effects st) \<longrightarrow>
                 out = resolve h [downloadsDir h, folder @ js ''.zip'']
                 \<and> \<not> escapes h (downloadsDir h) out"
  have step: "\<And>g slug st P I s. ?Inv st \<Longrightarrow> ?Inv (fst (processSkill h g slug (st, P, I) s))"
  proof -
    fix g slug st P I s
    assume inv: "?Inv st"
    from processSkill_effects [of h g slug st P I s] inv
    show "?Inv (fst (processSkill h g slug (st, P, I) s))"
      by (elim exE disjE conjE) auto
  qed
  have init: "?Inv initialState"
    by (simp add: initialState_def)
  have all: "\<And>r. ?Inv (fst (buildSkills h r))"
    unfolding buildSkills_def
    by (rule foldl_processGroup_inv [where Inv = ?Inv, OF step init])
  from skillsMain_trace [of h rootDir t] all
  show "\<forall>out folder. CreateZip out folder \<in> set (trace (skillsMain h rootDir t)) \<longrightarrow>
         out = resolve h [downloadsDir h, folder @ js ''.zip'']
         \<and> \<not> escapes h (downloadsDir h) out"
    by (elim disjE exE conjE) auto
qed

lemma sample_evil_escapes:
  "escapes sampleHost (downloadsDir sampleHost)
     (resolve sampleHost [downloadsDir sampleHost, js ''../../evil'' @ js ''.zip''])"
  by (simp add: escapes_def relative_def resolve_def downloadsDir_def publicDir_def
        segmentsOf_def isAbsolute_def sampleHost_def js_def Let_def)

lemma sample_skillsMain_trace:
  "trace (skillsMain sampleHost (Some sampleSkillsRoot) sampleTime) =
     effects (fst (buildSkills sampleHost sampleSkillsRoot))
       @ [WriteJson PublicManifest (skillsPublicManifest sampleHost sampleSkillsRoot sampleTime),
          WriteJson InternalCatalog (skillsInternalManifest sampleHost sampleSkillsRoot sampleTime),
          WriteJson Schema Undefined]"
proof -
  obtain es where es: "sampleSkillsRoot = Dir es"
    by (simp add: sampleSkillsRoot_def)
  show ?thesis by (simp add: skillsMain_def es)
qed

theorem escaping_destination_rejected_witness:
  "escapes sampleHost (downloadsDir sampleHost)
     (resolve sampleHost [downloadsDir sampleHost, js ''../../evil'' @ js ''.zip''])
   \<and> fst (snd (processSkill sampleHost (js ''dev-tools'') (js ''dev-tools'')
                 (initialState, [], []) (js ''../../evil'', Dir []))) = []
   \<and> snd (snd (processSkill sampleHost (js ''dev-tools'') (js ''dev-tools'')
                 (initialState, [], []) (js ''../../evil'', Dir []))) = []
   \<and> errorCount (fst (processSkill sampleHost (js ''dev-tools'') (js ''dev-tools'')
                 (initialState, [], []) (js ''../../evil'', Dir []))) = 1
   \<and> archivedFolders (effects (fst (processSkill sampleHost (js ''dev-tools'') (js ''dev-tools'')
                 (initialState, [], []) (js ''../../evil'', Dir [])))) = []
   \<and> CreateZip (js ''/repo/website/public/skills/downloads/alpha.zip'') (js ''alpha'')
        \<in> set (trace (skillsMain sampleHost (Some sampleSkillsRoot) sampleTime))
   \<and> \<not> escapes sampleHost (downloadsDir sampleHost)
          (js ''/repo/website/public/skills/downloads/alpha.zip'')"
proof -
  let ?s = "(js ''../../evil'', Dir [])"
  let ?step = "processSkill sampleHost (js ''dev-tools'') (js ''dev-tools'') (initialState, [], []) ?s"
  have esc: "escapes sampleHost (downloadsDir sampleHost)
     (resolve sampleHost [downloadsDir sampleHost, fst ?s @ js ''.zip''])"
    using sample_evil_escapes by simp
  from escaping_destination_rejected [of sampleHost ?s "js ''dev-tools''" "js ''dev-tools''"
      initialState "[]" "[]" None sampleTime, THEN conjunct1, rule_format, OF esc]
  obtain ws where step: "?step =
      (initialState\<lparr>seenSkillFolderNames := insert (fst ?s) (seenSkillFolderNames initialState),
         effects := effects initialState @ map Warn ws,
         errorCount := errorCount initialState + 1\<rparr>, [], [])"
    by blast
  have a: "fst (snd ?step) = []" and b: "snd (snd ?step) = []"
    and c: "errorCount (fst ?step) = 1" and d: "archivedFolders (effects (fst ?step)) = []"
    unfolding step
    by (simp_all add: initialState_def archivedFolders_append archivedFolders_Warn
          archivedFolders_def)
  have mem: "CreateZip (js ''/repo/website/public/skills/downloads/alpha.zip'') (js ''alpha'')
        \<in> set (trace (skillsMain sampleHost (Some sampleSkillsRoot) sampleTime))"
    by (simp add: sample_skillsMain_trace sample_buildSkills)
  from escaping_destination_rejected [of sampleHost ?s "js ''dev-tools''" "js ''dev-tools''"
      initialState "[]" "[]" "Some sampleSkillsRoot" sampleTime, THEN conjunct2, rule_format, OF mem]
  have e: "\<not> escapes sampleHost (downloadsDir sampleHost)
          (js ''/repo/website/public/skills/downloads/alpha.zip'')"
    by blast
  from esc a b c d mem e show ?thesis by simp
qed

subsection \<open>Duplicate identities\<close>

lemma archivedFolders_Cons:
  "archivedFolders (CreateZip out f # es) = f # archivedFolders es"
  by (simp add: archivedFolders_def)

text \<open>
  Claim C4. A folder name is marked as seen by the step that first meets it, and stays
  marked through all later skills and groups of the run. The step for a skill whose folder
  name is already marked adds only warnings, the last of them the duplicate warning, raises
  the error counter by one, and leaves both lists of records, the other counters and the
  archives as they were. In a whole run no folder name is archived twice.
\<close>

theorem duplicate_identity_rejected:
  "fst s \<in> seenSkillFolderNames (fst (processSkill h g slug (st, P, I) s))
   \<and> seenSkillFolderNames st
       \<subseteq> seenSkillFolderNames (fst (foldl (processSkill h g slug) (st, P, I) ss))
   \<and> seenSkillFolderNames st
       \<subseteq> seenSkillFolderNames (fst (foldl (processGroup h r) (st, gp, gi) ns))
   \<and> (fst s \<in> seenSkillFolderNames st \<longrightarrow>
        processSkill h g slug (st, P, I) s =
          (st\<lparr>effects := effects st
                 @ map Warn (snd (snd (parseSkillFrontmatter h g
                                        (child (Some (snd s)) (js ''SKILL.md'')) (fst s))))
                 @ [Warn (DuplicateFolder g (fst s))],
              errorCount := errorCount st + 1\<rparr>, P, I))
   \<and> distinct (archivedFolders (trace (skillsMain h rootDir t)))"
proof (intro conjI)
  show "fst s \<in> seenSkillFolderNames (fst (processSkill h g slug (st, P, I) s))"
    by (simp add: processSkill_seen)
next
  let ?Inv = "\<lambda>x :: skills_state. seenSkillFolderNames st \<subseteq> seenSkillFolderNames x"
  have step: "\<And>g slug st' P I s. ?Inv st' \<Longrightarrow> ?Inv (fst (processSkill h g slug (st', P, I) s))"
    by (auto simp: processSkill_seen)
  show "seenSkillFolderNames st
       \<subseteq> seenSkillFolderNames (fst (foldl (processSkill h g slug) (st, P, I) ss))"
    by (rule foldl_processSkill_inv [where Inv = ?Inv, OF step]) simp_all
  show "seenSkillFolderNames st
       \<subseteq> seenSkillFolderNames (fst (foldl (processGroup h r) (st, gp, gi) ns))"
    by (rule foldl_processGroup_inv [where Inv = ?Inv, OF step]) simp_all
next
  show "fst s \<in> seenSkillFolderNames st \<longrightarrow>
        processSkill h g slug (st, P, I) s =
          (st\<lparr>effects := effects st
                 @ map Warn (snd (snd (parseSkillFrontmatter h g
                                        (child (Some (snd s)) (js ''SKILL.md'')) (fst s))))
                 @ [Warn (DuplicateFolder g (fst s))],
              errorCount := errorCount st + 1\<rparr>, P, I)"
    using processSkill_duplicate [of s st h g slug P I] by blast
next
  let ?Inv = "\<lambda>x :: skills_state. distinct (archivedFolders (effects x))
                 \<and> set (archivedFolders (effects x)) \<subseteq> seenSkillFolderNames x"
  have step: "\<And>g slug st P I s. ?Inv st \<Longrightarrow> ?Inv (fst (processSkill h g slug (st, P, I) s))"
  proof -
    fix g slug st P I s
    assume inv: "?Inv st"
    from processSkill_effects [of h g slug st P I s] inv
    show "?Inv (fst (processSkill h g slug (st, P, I) s))"
      by (elim exE disjE conjE)
         (auto simp: processSkill_seen archivedFolders_append archivedFolders_Warn
            archivedFolders_Cons)
  qed
  have init: "?Inv initialState"
    by (simp add: initialState_def archivedFolders_def)
  have all: "\<And>r. ?Inv (fst (buildSkills h r))"
    unfolding buildSkills_def
    by (rule foldl_processGroup_inv [where Inv = ?Inv, OF step init])
  from skillsMain_trace [of h rootDir t] all
  show "distinct (archivedFolders (trace (skillsMain h rootDir t)))"
    by (elim disjE exE conjE) (auto simp: archivedFolders_append archivedFolders_def)
qed

theorem duplicate_identity_rejected_witness:
  "js ''alpha'' \<in> seenSkillFolderNames (initialState\<lparr>seenSkillFolderNames := {js ''alpha''}\<rparr>)
   \<and> processSkill sampleHost (js ''dev-tools'') (js ''dev-tools'')
        (initialState\<lparr>seenSkillFolderNames := {js ''alpha''}\<rparr>, [], [])
        (js ''alpha'', Dir [(js ''SKILL.md'', File (js ''2''))])
      = (initialState\<lparr>seenSkillFolderNames := {js ''alpha''},
           effects := [EnsureDirs,
                       Warn (MissingDescription (js ''dev-tools'') (js ''alpha'')),
                       Warn (DuplicateFolder (js ''dev-tools'') (js ''alpha''))],
           errorCount := 1\<rparr>, [], [])
   \<and> archivedFolders (trace (skillsMain sampleHost (Some sampleSkillsRoot) sampleTime))
        = [js ''alpha'', js ''beta'']
   \<and> distinct (archivedFolders (trace (skillsMain sampleHost (Some sampleSkillsRoot) sampleTime)))"
proof -
  let ?s = "(js ''alpha'', Dir [(js ''SKILL.md'', File (js ''2''))])"
  let ?st = "initialState\<lparr>seenSkillFolderNames := {js ''alpha''}\<rparr>"
  note inst = duplicate_identity_rejected [of ?s sampleHost "js ''dev-tools''" "js ''dev-tools''"
      ?st "[]" "[]" "[]" sampleSkillsRoot "[]" "[]" "[]" "Some sampleSkillsRoot" sampleTime]
  have seen: "fst ?s \<in> seenSkillFolderNames ?st" by simp
  have ws: "snd (snd (parseSkillFrontmatter sampleHost (js ''dev-tools'')
               (child (Some (snd ?s)) (js ''SKILL.md'')) (fst ?s)))
            = [MissingDescription (js ''dev-tools'') (js ''alpha'')]"
    by (simp add: parseSkillFrontmatter_def child_def sampleHost_def get_def props_def js_def)
  from inst [THEN conjunct2, THEN conjunct2, THEN conjunct2, THEN conjunct1, rule_format, OF seen]
  have step: "processSkill sampleHost (js ''dev-tools'') (js ''dev-tools'') (?st, [], []) ?s
      = (initialState\<lparr>seenSkillFolderNames := {js ''alpha''},
           effects := [EnsureDirs,
                       Warn (MissingDescription (js ''dev-tools'') (js ''alpha'')),
                       Warn (DuplicateFolder (js ''dev-tools'') (js ''alpha''))],
           errorCount := 1\<rparr>, [], [])"
    unfolding ws by (simp add: initialState_def)
  have folders: "archivedFolders (trace (skillsMain sampleHost (Some sampleSkillsRoot) sampleTime))
        = [js ''alpha'', js ''beta'']"
    by (simp add: sample_skillsMain_trace sample_buildSkills archivedFolders_def)
  from inst have "distinct (archivedFolders (trace (skillsMain sampleHost (Some sampleSkillsRoot)
      sampleTime)))"
    by blast
  with seen step folders show ?thesis by simp
qed

subsection \<open>The order of the directory listings\<close>

text \<open>
  Both scripts sort what they list before they use it: the groups, the skill folders and
  the providers by their folder names, the model files by their relative paths, and the
  records by their visible names with a stable sort. The lemmas below follow a reordered
  listing through these sorts.
\<close>

subsection \<open>Sorting a reordered listing\<close>







subsection \<open>The skills corpus in another listing order\<close>




lemma sameChild_Dir:
  "sameChild (Some (Dir es)) c' \<longleftrightarrow> (\<exists>es'. c' = Some (Dir es') \<and> sameEntries es es')"
proof (cases c')
  case None
  then show ?thesis by (simp add: sameChild_def)
next
  case (Some y)
  then show ?thesis by (cases y) (simp_all add: sameChild_def)
qed

lemma sameChild_other:
  "\<forall>es. c \<noteq> Some (Dir es) \<Longrightarrow> sameChild c c' \<longleftrightarrow> c' = c"
proof (cases c)
  case None
  then show ?thesis by (simp add: sameChild_def)
next
  case (Some y)
  assume "\<forall>es. c \<noteq> Some (Dir es)"
  with Some show ?thesis by (cases y) (simp_all add: sameChild_def)
qed

lemma sameChild_cases:
  assumes "sameChild c c'"
  shows "c' = c \<or> (\<exists>es es'. c = Some (Dir es) \<and> c' = Some (Dir es') \<and> sameEntries es es')"
proof (cases "\<exists>es. c = Some (Dir es)")
  case True
  then obtain es where c: "c = Some (Dir es)" by blast
  with assms show ?thesis by (simp add: sameChild_Dir)
next
  case False
  with assms show ?thesis by (simp add: sameChild_other)
qed





lemma sameChild_child:
  assumes "sameChild c c'"
  shows "child c' k = child c k"
proof -
  from sameChild_cases [OF assms] consider "c' = c"
    | es es' where "c = Some (Dir es)" "c' = Some (Dir es')" "sameEntries es es'"
    by blast
  then show ?thesis
  proof cases
    case 1
    then show ?thesis by simp
  next
    case 2
    from 2(3) have "distinct (map fst es')" "distinct (map fst es)" "set es' = set es"
      unfolding sameEntries_def by blast+
    then have "map_of es' = map_of es"
      by (simp only: map_of_inject_set)
    with 2 show ?thesis by (simp add: child_def)
  qed
qed









subsection \<open>The providers tree in another listing order\<close>























subsection \<open>The written text\<close>











subsection \<open>Two runs\<close>








text \<open>
  The condition on the collation is needed. The sample collation ties \<open>Alpha\<close> and
  \<open>alpha\<close>, the stable sort leaves tied names as they were listed, and the manifest has
  the two groups in the order of the listing.
\<close>

lemma listing_order_shows_on_ties:
  "localeCompare sampleHost (js ''Alpha'') (js ''alpha'') = 0"
  "skillsPublicManifest sampleHost (Dir [(js ''Alpha'', Dir []), (js ''alpha'', Dir [])]) t
     = skillsManifest t [groupOut (js ''Alpha'') (js ''alpha'') [],
                         groupOut (js ''alpha'') (js ''alpha'') []]"
  "skillsPublicManifest sampleHost (Dir [(js ''alpha'', Dir []), (js ''Alpha'', Dir [])]) t
     = skillsManifest t [groupOut (js ''alpha'') (js ''alpha'') [],
                         groupOut (js ''Alpha'') (js ''alpha'') []]"
  by (simp_all add: skillsPublicManifest_def buildSkills_def processGroup_def listGroups_def
      listSkillDirs_def sortAlphaCaseInsensitive_def sortBy_def sortByName_def readdir_def
      direntIsDirectory_def child_def slugifyGroupName_def stripDashes_def trim_def
      isWhiteSpace_def isLowerOrDigit_def isUpper_def sampleHost_def asciiLower_def js_def
      Let_def)




end
